theory Spec2Isabelle
  imports Complex_Main "HOL-Library.Char_ord" "HOL-Library.List_Lexorder"
    "HOL-Library.Product_Lexorder"
begin

section \<open>Tables, cells and the report context\<close>

text \<open>
  The profiler of \<^verbatim>\<open>util.py\<close> takes a pandas DataFrame and builds a report in a
  dictionary with two text entries. A cell of the frame is one of the values the checks
  tell apart: \<open>Null\<close> is the missing marker (the float NaN; pandas treats None and NaT the
  same way in \<^verbatim>\<open>isna\<close>, \<^verbatim>\<open>dropna\<close> and \<^verbatim>\<open>duplicated\<close>), \<open>Num\<close> a Python int or
  finite float by its numeric value, \<open>Str\<close> a Python str, \<open>Stamp\<close> a timezone-aware
  timestamp as nanoseconds since the epoch (UTC), and \<open>Other tn\<close> any other object, \<open>tn\<close>
  being \<^verbatim>\<open>type(x).__name__\<close>.
\<close>

datatype cell = Null | Num rat | Str string | Stamp int | Other string

datatype error = KeyError string | ValueError | TypeError | AttributeError | OutsideModel

type_synonym column = "string \<times> cell list"

text \<open>
  A frame is column-major: its labels in order (repeats allowed), each with its cells,
  and a row count of its own (a frame without columns still has an index).
\<close>

record table =
  name :: string
  nrows :: nat
  columns :: "column list"

definition wf_table :: "table \<Rightarrow> bool" where
  "wf_table df = list_all (\<lambda>c. length (snd c) = nrows df) (columns df)"

definition labels :: "table \<Rightarrow> string list" where
  "labels df = map fst (columns df)"

text \<open>\<^verbatim>\<open>df[col]\<close>: every column carrying the label (a Series when there is exactly one).\<close>

definition getitem :: "table \<Rightarrow> string \<Rightarrow> column list" where
  "getitem df col = filter (\<lambda>c. fst c = col) (columns df)"

definition rows_of :: "nat \<Rightarrow> column list \<Rightarrow> cell list list" where
  "rows_of n cs = map (\<lambda>i. map (\<lambda>c. snd c ! i) cs) [0..<n]"

type_synonym report_context = "string \<rightharpoonup> string"

text \<open>\<^verbatim>\<open>context[k] += s\<close> reads the entry first, so a key that is absent raises KeyError.\<close>

definition ctx_add :: "string \<Rightarrow> string \<Rightarrow> report_context \<Rightarrow> error + report_context" where
  "ctx_add k s ctx = (case ctx k of None \<Rightarrow> Inl (KeyError k) | Some v \<Rightarrow> Inr (ctx(k \<mapsto> v @ s)))"

definition then_do :: "error + 'a \<Rightarrow> ('a \<Rightarrow> error + 'b) \<Rightarrow> error + 'b" where
  "then_do r f = (case r of Inl e \<Rightarrow> Inl e | Inr x \<Rightarrow> f x)"

text \<open>
  What the checks take from pandas, numpy and the Python runtime without the repository
  fixing it: text renderings, float parsing, timestamp parsing and the clock. The checks
  are modelled over any such environment.
\<close>

record env =
  repr_str :: "string \<Rightarrow> string"
  str_cell :: "cell \<Rightarrow> string"
  dtype_of :: "cell list \<Rightarrow> string"
  info_to_string :: "(string \<times> string \<times> nat \<times> nat) list \<Rightarrow> string"
  rows_to_string :: "string list \<Rightarrow> cell list list \<Rightarrow> string"
  pct_str :: "nat \<Rightarrow> nat \<Rightarrow> string"
  float_of_str :: "string \<Rightarrow> error + rat"
  to_datetime :: "cell \<Rightarrow> error + int option"
  now :: "nat \<Rightarrow> int"
  numeric_empty :: "table \<Rightarrow> bool"
  describe_to_string :: "table \<Rightarrow> string"

subsection \<open>Python text helpers\<close>

definition digit_char :: "nat \<Rightarrow> char" where
  "digit_char d = ''0123456789'' ! d"

function str_nat :: "nat \<Rightarrow> string" where
  "str_nat n = (if n < 10 then [digit_char n] else str_nat (n div 10) @ [digit_char (n mod 10)])"
  by pat_completeness auto
termination
  by (relation "measure id") auto

declare str_nat.simps [simp del]

fun join :: "string \<Rightarrow> string list \<Rightarrow> string" where
  "join sep [] = []"
| "join sep [x] = x"
| "join sep (x # y # ys) = x @ sep @ join sep (y # ys)"

definition list_repr :: "env \<Rightarrow> string list \<Rightarrow> string" where
  "list_repr E xs = ''['' @ join '', '' (map (repr_str E) xs) @ '']''"

subsection \<open>pandas helpers\<close>

text \<open>\<^verbatim>\<open>duplicated()\<close> (keep first): an entry is marked when it repeats an earlier one.\<close>

fun duplicated :: "'a list \<Rightarrow> 'a list \<Rightarrow> bool list" where
  "duplicated seen [] = []"
| "duplicated seen (x # xs) = (x \<in> set seen) # duplicated (x # seen) xs"

definition dup_count :: "'a list \<Rightarrow> nat" where
  "dup_count xs = length (filter id (duplicated [] xs))"

text \<open>\<^verbatim>\<open>unique()\<close>: the distinct values in order of first appearance.\<close>

fun unique :: "'a list \<Rightarrow> 'a list \<Rightarrow> 'a list" where
  "unique seen [] = []"
| "unique seen (x # xs) = (if x \<in> set seen then unique seen xs else x # unique (x # seen) xs)"

definition isna :: "cell \<Rightarrow> bool" where
  "isna c = (c = Null)"

definition dropna :: "cell list \<Rightarrow> cell list" where
  "dropna vs = filter (\<lambda>c. \<not> isna c) vs"

definition null_count :: "cell list \<Rightarrow> nat" where
  "null_count vs = length (filter isna vs)"

definition nunique :: "cell list \<Rightarrow> nat" where
  "nunique vs = length (unique [] (dropna vs))"

section \<open>The checks\<close>

subsection \<open>Shape, column names, duplicate columns, data types\<close>

definition get_dataframe_shape :: "env \<Rightarrow> table \<Rightarrow> report_context \<Rightarrow> error + report_context" where
  "get_dataframe_shape E df ctx =
     ctx_add ''body''
       (''\<newline>    1. Basic Table Information:\<newline>       - DataFrame has '' @ str_nat (nrows df)
        @ '' rows and '' @ str_nat (length (columns df)) @ '' columns.\<newline>    '') ctx"

definition col_with_spaces :: "table \<Rightarrow> string list" where
  "col_with_spaces df = filter (\<lambda>col. CHR '' '' \<in> set col) (labels df)"

definition column_spaces_body :: "string \<Rightarrow> string" where
  "column_spaces_body space_issue =
     ''\<newline>    2. Column Name Issues:\<newline>       - '' @ space_issue @ ''\<newline>    ''"

definition check_column_spaces :: "env \<Rightarrow> table \<Rightarrow> report_context \<Rightarrow> error + report_context" where
  "check_column_spaces E df ctx =
     (if col_with_spaces df \<noteq> [] then
        then_do
          (ctx_add ''action_items''
             (''    - Column name cleanup: Remove leading/trailing spaces in columns, or replace inner spaces with underscores (`_`) in the column ''
              @ list_repr E (col_with_spaces df) @ ''.\<newline>'') ctx)
          (ctx_add ''body''
             (column_spaces_body (''Columns with spaces: '' @ list_repr E (col_with_spaces df))))
      else ctx_add ''body'' (column_spaces_body ''No column names have extra spaces.'') ctx)"

text \<open>\<^verbatim>\<open>df.columns[df.columns.duplicated()].tolist()\<close>: the labels that repeat an earlier label.\<close>

definition duplicated_columns :: "table \<Rightarrow> string list" where
  "duplicated_columns df = map snd (filter fst (zip (duplicated [] (labels df)) (labels df)))"

definition check_duplicate_columns :: "env \<Rightarrow> table \<Rightarrow> report_context \<Rightarrow> error + report_context" where
  "check_duplicate_columns E df ctx =
     (if duplicated_columns df \<noteq> [] then
        then_do
          (ctx_add ''action''
             (''    - Resolve duplicate columns: Consider to rename or remove duplicate column names ''
              @ list_repr E (duplicated_columns df) @ '' to maintain data integrity.\<newline>'') ctx)
          (ctx_add ''body''
             (''   - '' @ (''Duplicate column names found: '' @ list_repr E (duplicated_columns df))
              @ ''\<newline>''))
      else ctx_add ''body'' (''   - '' @ ''No duplicate column names.'' @ ''\<newline>'') ctx)"

text \<open>
  The summary frame of \<^verbatim>\<open>_get_column_data_types\<close>: one row per column (label, dtype,
  null count, distinct non-null count), by null count descending. pandas sorts with an
  unstable algorithm; the model keeps rows with equal null counts in column order.
\<close>

type_synonym info_row = "string \<times> string \<times> nat \<times> nat"

definition info_column :: "info_row \<Rightarrow> string" where
  "info_column r = fst r"

definition info_nulls :: "info_row \<Rightarrow> nat" where
  "info_nulls r = fst (snd (snd r))"

definition info_row_of :: "env \<Rightarrow> column \<Rightarrow> info_row" where
  "info_row_of E c = (fst c, dtype_of E (snd c), null_count (snd c), nunique (snd c))"

definition priv_get_column_data_types :: "env \<Rightarrow> table \<Rightarrow> info_row list" where
  "priv_get_column_data_types E df =
     sort_key (\<lambda>r. - int (info_nulls r)) (map (info_row_of E) (columns df))"

definition get_column_data_types :: "env \<Rightarrow> table \<Rightarrow> report_context \<Rightarrow> error + report_context" where
  "get_column_data_types E df ctx =
     ctx_add ''body''
       (''\<newline>    3. Data Type Overview:\<newline>       '' @ info_to_string E (priv_get_column_data_types E df)
        @ ''\<newline>    '') ctx"

subsection \<open>Potential primary key\<close>

text \<open>The table kind is chosen from the labels alone (the \<^verbatim>\<open>if\<close>/\<^verbatim>\<open>elif\<close> chain).\<close>

definition identifier_heuristic :: "string list \<Rightarrow> (string list \<times> string) option" where
  "identifier_heuristic cols =
     (if ''BARCODE'' \<in> set cols \<and> ''RECEIPT_ID'' \<notin> set cols then Some ([''BARCODE''], ''product'')
      else if ''RECEIPT_ID'' \<in> set cols then Some ([''RECEIPT_ID''], ''transaction'')
      else if ''ID'' \<in> set cols then Some ([''ID''], ''user'')
      else None)"

text \<open>
  \<^verbatim>\<open>df[col].dropna().duplicated().sum()\<close>. For a label carried by one column this counts
  the non-null cells that repeat an earlier one. For a repeated label pandas hands back a
  frame: its \<^verbatim>\<open>dropna\<close> drops every row with a null in one of those columns and its
  \<^verbatim>\<open>duplicated\<close> compares the rows that stay. Both are the count below.
\<close>

definition dropna_dup_count :: "table \<Rightarrow> string \<Rightarrow> nat" where
  "dropna_dup_count df col =
     dup_count (filter (\<lambda>r. \<not> list_ex isna r) (rows_of (nrows df) (getitem df col)))"

text \<open>
  The loop over \<^verbatim>\<open>identifier_columns\<close>. With a repeated label \<^verbatim>\<open>nan_count\<close> is a
  Series, and \<^verbatim>\<open>if nan_count > 0\<close> raises ValueError (the truth value of a Series is
  ambiguous).
\<close>

fun check_identifiers :: "table \<Rightarrow> string \<Rightarrow> string list \<Rightarrow> string list \<Rightarrow> error + string list" where
  "check_identifiers df table_name [] invalid_identifiers = Inr invalid_identifiers"
| "check_identifiers df table_name (col # cols) invalid_identifiers =
     (if col \<in> set (labels df) then
        (case getitem df col of
           [c] \<Rightarrow>
             (let nan_count = null_count (snd c);
                  duplicate_count = dropna_dup_count df col;
                  inv1 = (if nan_count > 0
                          then invalid_identifiers @ [col @ '' in '' @ table_name @ '' table has ''
                                 @ str_nat nan_count @ '' missing values (NaN).'']
                          else invalid_identifiers);
                  inv2 = (if duplicate_count > 0
                          then inv1 @ [col @ '' in '' @ table_name @ '' table has ''
                                 @ str_nat duplicate_count @ '' duplicate values (excluding NaN).'']
                          else inv1)
              in check_identifiers df table_name cols inv2)
         | _ \<Rightarrow> Inl ValueError)
      else check_identifiers df table_name cols invalid_identifiers)"

definition unique_identifiers :: "table \<Rightarrow> string list" where
  "unique_identifiers df = filter (\<lambda>col. dropna_dup_count df col = 0) (labels df)"

definition primary_key_body :: "string \<Rightarrow> string \<Rightarrow> string" where
  "primary_key_body table_name primary_key_check =
     ''\<newline>    4. Potential Unique Identifiers in '' @ table_name @ '' table:\<newline>       - ''
     @ primary_key_check @ ''\<newline>    ''"

definition find_potential_primary_key :: "env \<Rightarrow> table \<Rightarrow> report_context \<Rightarrow> error + report_context" where
  "find_potential_primary_key E df ctx =
     (case identifier_heuristic (labels df) of
        None \<Rightarrow>
          ctx_add ''body''
            ''\<newline>        4. Potential Unique Identifiers:\<newline>           - No unique identifier columns found in this table.\<newline>        ''
            ctx
      | Some (identifier_columns, table_name) \<Rightarrow>
          then_do (check_identifiers df table_name identifier_columns [])
            (\<lambda>invalid_identifiers.
               (let primary_key_check =
                      (if unique_identifiers df \<noteq> []
                       then ''Potential unique identifier(s): '' @ list_repr E (unique_identifiers df) @ ''.''
                       else ''No unique and non-null identifier detected.'')
                in if invalid_identifiers \<noteq> [] then
                     then_do
                       (ctx_add ''action_items''
                          (''    - Resolve issues with unique identifiers: ''
                           @ join '', '' invalid_identifiers @ ''\<newline>'') ctx)
                       (ctx_add ''body''
                          (primary_key_body table_name
                             (primary_key_check @ ''\<newline>       - Invalid unique identifiers: ''
                              @ join '', '' invalid_identifiers)))
                   else ctx_add ''body'' (primary_key_body table_name primary_key_check) ctx)))"

subsection \<open>Null columns\<close>

definition null_columns_body :: "string \<Rightarrow> string" where
  "null_columns_body null_columns_check =
     ''\<newline>    5. Null Column Analysis:\<newline>       - '' @ null_columns_check @ ''\<newline>    ''"

definition partial_null_details :: "env \<Rightarrow> nat \<Rightarrow> info_row list \<Rightarrow> string list" where
  "partial_null_details E rows partial_null_df =
     map (\<lambda>r. info_column r @ '': '' @ str_nat (info_nulls r) @ '' missing (''
               @ pct_str E (info_nulls r) rows @ ''%)'') partial_null_df"

definition check_null_columns :: "env \<Rightarrow> table \<Rightarrow> report_context \<Rightarrow> error + report_context" where
  "check_null_columns E df ctx =
     (let dtype_info = priv_get_column_data_types E df;
          rows = nrows df
      in if list_all (\<lambda>r. info_nulls r = rows) dtype_info then
           (let full_null_cols = map info_column (filter (\<lambda>r. info_nulls r = rows) dtype_info)
            in then_do
                 (ctx_add ''action_items''
                    (''    - Handle fully NULL columns: Remove columns '' @ join '', '' full_null_cols
                     @ '' that contain only null values.\<newline>'') ctx)
                 (ctx_add ''body''
                    (null_columns_body (''Fully NULL columns: '' @ join '', '' full_null_cols @ ''.''))))
         else if list_ex (\<lambda>r. info_nulls r > 0) dtype_info then
           (let partial_null_df = filter (\<lambda>r. info_nulls r > 0) dtype_info;
                partial_null_message =
                  ''\<newline>          - ''
                  @ join ''\<newline>          - '' (partial_null_details E rows partial_null_df)
            in then_do
                 (ctx_add ''action_items''
                    (''    - Handle missing data: The following columns contain missing values:''
                     @ partial_null_message @ ''\<newline>'') ctx)
                 (ctx_add ''body''
                    (null_columns_body (''Partially NULL columns: '' @ partial_null_message))))
         else ctx_add ''body''
                (null_columns_body ''No NULL columns detected. All columns are fully populated.'') ctx)"

subsection \<open>Fully duplicate rows\<close>

text \<open>
  \<^verbatim>\<open>df.duplicated().sum()\<close>: the rows that repeat an earlier row; pandas answers with an
  empty Series, hence 0, for a frame without rows or without columns.
\<close>

definition fully_duplicate :: "table \<Rightarrow> nat" where
  "fully_duplicate df =
     (if nrows df = 0 \<or> columns df = [] then 0 else dup_count (rows_of (nrows df) (columns df)))"

text \<open>\<^verbatim>\<open>df[df.duplicated(keep=False)]\<close>: every row that occurs at least twice.\<close>

definition duplicated_keep_false :: "'a list \<Rightarrow> 'a list" where
  "duplicated_keep_false rs = filter (\<lambda>r. 2 \<le> count_list rs r) rs"

text \<open>
  \<^verbatim>\<open>sort_values(by=df.columns.tolist())\<close> orders the rows column after column, missing
  values last. It raises ValueError when a label is not unique, and TypeError when the
  values of a column do not compare with each other: the model takes numbers, strings and
  timestamps to compare within their kind, and nothing else.
\<close>

fun cell_key :: "cell \<Rightarrow> nat \<times> rat \<times> string \<times> int" where
  "cell_key (Num q) = (0, q, [], 0)"
| "cell_key (Str s) = (1, 0, s, 0)"
| "cell_key (Stamp t) = (2, 0, [], t)"
| "cell_key (Other tn) = (3, 0, tn, 0)"
| "cell_key Null = (4, 0, [], 0)"

definition row_key :: "cell list \<Rightarrow> (nat \<times> rat \<times> string \<times> int) list" where
  "row_key r = map cell_key r"

fun is_num :: "cell \<Rightarrow> bool" where
  "is_num (Num q) = True"
| "is_num c = False"

fun is_str :: "cell \<Rightarrow> bool" where
  "is_str (Str s) = True"
| "is_str c = False"

fun is_stamp :: "cell \<Rightarrow> bool" where
  "is_stamp (Stamp t) = True"
| "is_stamp c = False"

definition comparable :: "cell list \<Rightarrow> bool" where
  "comparable vs = (list_all is_num (dropna vs) \<or> list_all is_str (dropna vs)
                    \<or> list_all is_stamp (dropna vs))"

definition sort_values :: "string list \<Rightarrow> cell list list \<Rightarrow> error + cell list list" where
  "sort_values by rs =
     (if \<not> distinct by then Inl ValueError
      else if \<not> list_all (\<lambda>j. comparable (map (\<lambda>r. r ! j) rs)) [0..<length by] then Inl TypeError
      else Inr (sort_key row_key rs))"

definition duplicate_examples :: "table \<Rightarrow> error + cell list list" where
  "duplicate_examples df =
     then_do (sort_values (labels df) (duplicated_keep_false (rows_of (nrows df) (columns df))))
       (\<lambda>sorted_rows. Inr (take 5 sorted_rows))"

definition duplicate_rows_body :: "string \<Rightarrow> string" where
  "duplicate_rows_body duplicate_rows_check =
     ''\<newline>    6. Duplicate Row Analysis:\<newline>       - '' @ duplicate_rows_check @ ''\<newline>    ''"

definition check_fully_duplicate_rows :: "env \<Rightarrow> table \<Rightarrow> report_context \<Rightarrow> error + report_context" where
  "check_fully_duplicate_rows E df ctx =
     (if fully_duplicate df = 0 then
        ctx_add ''body'' (duplicate_rows_body ''No fully duplicate rows.'') ctx
      else
        then_do (duplicate_examples df)
          (\<lambda>examples.
             then_do
               (ctx_add ''action_items''
                  (''    - Remove duplicate rows: Consider to remove '' @ str_nat (fully_duplicate df)
                   @ '' duplicate entries. Example rows: \<newline>''
                   @ rows_to_string E (labels df) examples @ ''\<newline>'') ctx)
               (ctx_add ''body''
                  (duplicate_rows_body
                     (''There are '' @ str_nat (fully_duplicate df)
                      @ '' duplicate rows. Here are a few examples:\<newline>''
                      @ rows_to_string E (labels df) examples)))))"

subsection \<open>Mixed data types\<close>

text \<open>
  The classifier \<^verbatim>\<open>check_column_type\<close>. \<^verbatim>\<open>float(x)\<close> on a str is the environment's
  \<open>float_of_str\<close>; the \<^verbatim>\<open>except ValueError\<close> clause catches that exception and no other.
  A timestamp is neither number nor str, so it falls through to its type name.
\<close>

fun check_column_type :: "env \<Rightarrow> cell \<Rightarrow> error + string" where
  "check_column_type E (Num q) = Inr ''numeric''"
| "check_column_type E Null = Inr ''numeric''"
| "check_column_type E (Str s) =
     (case float_of_str E s of
        Inr q \<Rightarrow> Inr ''numeric''
      | Inl ValueError \<Rightarrow> Inr ''string''
      | Inl e \<Rightarrow> Inl e)"
| "check_column_type E (Stamp t) = Inr ''Timestamp''"
| "check_column_type E (Other tn) = Inr tn"

text \<open>\<^verbatim>\<open>Series.apply\<close>: the classifier on each value in turn.\<close>

fun apply_check_column_type :: "env \<Rightarrow> cell list \<Rightarrow> error + string list" where
  "apply_check_column_type E [] = Inr []"
| "apply_check_column_type E (x # xs) =
     then_do (check_column_type E x)
       (\<lambda>t. then_do (apply_check_column_type E xs) (\<lambda>ts. Inr (t # ts)))"

text \<open>
  The loop over the labels, collecting the mixed columns with their types. What pandas does
  with \<^verbatim>\<open>apply\<close> on the frame it hands back for a repeated label is outside the model;
  the pipeline stops at the duplicate-columns check before it gets here.
\<close>

fun mixed_scan :: "env \<Rightarrow> table \<Rightarrow> string list \<Rightarrow> error + (string \<times> string list) list" where
  "mixed_scan E df [] = Inr []"
| "mixed_scan E df (col # cols) =
     (case getitem df col of
        [c] \<Rightarrow>
          then_do (apply_check_column_type E (dropna (snd c)))
            (\<lambda>types. let types_in_col = unique [] types
                      in then_do (mixed_scan E df cols)
                           (\<lambda>rest. Inr (if length types_in_col > 1 then (col, types_in_col) # rest
                                         else rest)))
      | _ \<Rightarrow> Inl OutsideModel)"

definition mixed_types_body :: "string \<Rightarrow> string" where
  "mixed_types_body mixed_data_types_check =
     ''\<newline>    7. Mixed Data Type Check (e.g., numbers mixed with text): \<newline>       - ''
     @ mixed_data_types_check @ ''\<newline>    ''"

definition check_mixed_data_types :: "env \<Rightarrow> table \<Rightarrow> report_context \<Rightarrow> error + report_context" where
  "check_mixed_data_types E df ctx =
     then_do (mixed_scan E df (labels df))
       (\<lambda>column_types.
          (let mixed_type_cols = map fst column_types
           in if mixed_type_cols \<noteq> [] then
                then_do
                  (ctx_add ''action_items''
                     (''    - Resolve mixed data type issues: Standardize data types in the following columns: ''
                      @ list_repr E mixed_type_cols @ '' to ensure consistency.\<newline>'') ctx)
                  (ctx_add ''body''
                     (mixed_types_body
                        (''Columns with mixed data types: '' @ list_repr E mixed_type_cols @ ''.''
                         @ ''\<newline>       - Different types in these columns:\<newline>          - ''
                         @ join ''\<newline>          - ''
                             (map (\<lambda>ct. fst ct @ '': '' @ join '', '' (snd ct)) column_types))))
              else ctx_add ''body'' (mixed_types_body ''No columns have mixed data types.'') ctx))"

subsection \<open>Date validity\<close>

definition date_columns :: "string list" where
  "date_columns = [''PURCHASE_DATE'', ''SCAN_DATE'', ''CREATED_DATE'', ''BIRTH_DATE'']"

text \<open>
  \<^verbatim>\<open>pd.to_datetime(.., utc=True)\<close> on one cell: a missing value becomes NaT, a timestamp
  stays the instant it is, anything else is parsed (or the call raises).
\<close>

definition to_utc :: "env \<Rightarrow> cell \<Rightarrow> error + cell" where
  "to_utc E c =
     (case c of
        Null \<Rightarrow> Inr Null
      | Stamp t \<Rightarrow> Inr (Stamp t)
      | _ \<Rightarrow> (case to_datetime E c of
                Inl e \<Rightarrow> Inl e
              | Inr None \<Rightarrow> Inr Null
              | Inr (Some t) \<Rightarrow> Inr (Stamp t)))"

fun to_datetime_col :: "env \<Rightarrow> cell list \<Rightarrow> error + cell list" where
  "to_datetime_col E [] = Inr []"
| "to_datetime_col E (c # cs) =
     then_do (to_utc E c) (\<lambda>d. then_do (to_datetime_col E cs) (\<lambda>ds. Inr (d # ds)))"

text \<open>\<^verbatim>\<open>df[col] = values\<close> for a label carried by one column.\<close>

definition setitem :: "table \<Rightarrow> string \<Rightarrow> cell list \<Rightarrow> table" where
  "setitem df col vals = df\<lparr>columns := map (\<lambda>c. if fst c = col then (col, vals) else c) (columns df)\<rparr>"

text \<open>\<^verbatim>\<open>value > now\<close> on a timestamp column: NaT compares False.\<close>

fun is_future :: "int \<Rightarrow> cell \<Rightarrow> bool" where
  "is_future now_utc (Stamp t) = (t > now_utc)"
| "is_future now_utc c = False"

definition future_dates :: "int \<Rightarrow> cell list \<Rightarrow> cell list" where
  "future_dates now_utc vals = filter (is_future now_utc) vals"

text \<open>
  The loop over the date columns that are present. The clock is read once per column:
  \<open>now E k\<close> is the reading for the \<open>k\<close>-th of them. The column is rewritten before it
  is compared. For a repeated label \<^verbatim>\<open>to_datetime\<close> is handed a frame and raises
  ValueError.
\<close>

fun date_scan :: "env \<Rightarrow> nat \<Rightarrow> string list \<Rightarrow> table \<Rightarrow> string list \<Rightarrow> table \<times> (error + string list)" where
  "date_scan E k [] df invalid_dates = (df, Inr invalid_dates)"
| "date_scan E k (col # cols) df invalid_dates =
     (case getitem df col of
        [c] \<Rightarrow>
          (case to_datetime_col E (snd c) of
             Inl e \<Rightarrow> (df, Inl e)
           | Inr vals \<Rightarrow>
               date_scan E (Suc k) cols (setitem df col vals)
                 (if future_dates (now E k) vals \<noteq> []
                  then invalid_dates @ [col @ '' has future dates: ''
                         @ join '', '' (map (str_cell E) (unique [] (future_dates (now E k) vals)))
                         @ ''.'']
                  else invalid_dates))
      | _ \<Rightarrow> (df, Inl ValueError))"

definition date_validity_body :: "string \<Rightarrow> string" where
  "date_validity_body date_validity_check =
     ''\<newline>    8. Date Validity Check (timestamps are valid): \<newline>       - ''
     @ date_validity_check @ ''\<newline>    ''"

definition check_date_validity :: "env \<Rightarrow> table \<Rightarrow> report_context \<Rightarrow> table \<times> (error + report_context)" where
  "check_date_validity E df ctx =
     (let found_date_columns = filter (\<lambda>col. col \<in> set (labels df)) date_columns
      in if found_date_columns = [] then
           (df, ctx_add ''body'' (date_validity_body ''No date columns in this table.'') ctx)
         else
           (case date_scan E 0 found_date_columns df [] of
              (df', Inl e) \<Rightarrow> (df', Inl e)
            | (df', Inr invalid_dates) \<Rightarrow>
                (if invalid_dates \<noteq> [] then
                   (df', then_do
                      (ctx_add ''action_items''
                         (''    - Correct invalid dates: Update or remove the following dates to ensure accuracy:\<newline>       - ''
                          @ join ''\<newline>       - '' invalid_dates @ ''\<newline>'') ctx)
                      (ctx_add ''body''
                         (date_validity_body (join ''\<newline>       - '' invalid_dates))))
                 else
                   (df', ctx_add ''body'' (date_validity_body ''All date columns are valid.'') ctx))))"

subsection \<open>Date order\<close>

text \<open>
  \<^verbatim>\<open>df[col].dt.date\<close>: the UTC calendar day of each timestamp, NaT for a missing one. The
  accessor exists on a datetime Series only (AttributeError otherwise, also on the frame
  handed back for a repeated label). \<^verbatim>\<open><\<close> on the two day columns is False wherever one
  side is missing.
\<close>

definition date_of :: "cell \<Rightarrow> int option" where
  "date_of c = (case c of Stamp t \<Rightarrow> Some (t div 86400000000000) | _ \<Rightarrow> None)"

definition dt_date :: "table \<Rightarrow> string \<Rightarrow> error + int option list" where
  "dt_date df col =
     (case getitem df col of
        [c] \<Rightarrow> (if list_all (\<lambda>v. isna v \<or> is_stamp v) (snd c) then Inr (map date_of (snd c))
                else Inl AttributeError)
      | _ \<Rightarrow> Inl AttributeError)"

fun day_before :: "int option \<times> int option \<Rightarrow> bool" where
  "day_before (Some a, Some b) = (a < b)"
| "day_before p = False"

definition invalid_date_rows :: "table \<Rightarrow> string \<Rightarrow> string \<Rightarrow> error + nat" where
  "invalid_date_rows df later earlier =
     then_do (dt_date df later)
       (\<lambda>ls. then_do (dt_date df earlier) (\<lambda>es. Inr (length (filter day_before (zip ls es)))))"

definition check_transaction_date_order :: "env \<Rightarrow> table \<Rightarrow> report_context \<Rightarrow> error + report_context" where
  "check_transaction_date_order E df ctx =
     (if ''SCAN_DATE'' \<in> set (labels df) \<and> ''PURCHASE_DATE'' \<in> set (labels df) then
        then_do (invalid_date_rows df ''SCAN_DATE'' ''PURCHASE_DATE'')
          (\<lambda>n. if n \<noteq> 0 then
                 then_do
                   (ctx_add ''action_items''
                      (''    - Correct date order: 'scan_date' should be after 'purchase_date'. Found invalid entries in ''
                       @ str_nat n @ '' rows.\<newline>'') ctx)
                   (ctx_add ''body''
                      (''\<newline>    9. Date Order Check (check if receipt scan date is after purchase date):\<newline>       - There are ''
                       @ str_nat n @ '' rows where 'scan_date' is before 'purchase_date'.\<newline>    ''))
               else
                 ctx_add ''body''
                   ''\<newline>    9. Date Order Check (check if receipt scan date is after purchase date):\<newline>       - All 'scan_date' entries are after 'purchase_date'.\<newline>    ''
                   ctx)
      else
        ctx_add ''body''
          ''\<newline>    9. Date Order Check (check if receipt scan date is after purchase date):\<newline>       - No related columns found.\<newline>    ''
          ctx)"

definition check_customer_date_order :: "env \<Rightarrow> table \<Rightarrow> report_context \<Rightarrow> error + report_context" where
  "check_customer_date_order E df ctx =
     (if ''BIRTH_DATE'' \<in> set (labels df) \<and> ''CREATED_DATE'' \<in> set (labels df) then
        then_do (invalid_date_rows df ''CREATED_DATE'' ''BIRTH_DATE'')
          (\<lambda>n. if n \<noteq> 0 then
                 then_do
                   (ctx_add ''action_items''
                      (''    - Correct date order: 'created_date' should be after 'birth_date'. Found invalid entries in ''
                       @ str_nat n @ '' rows.\<newline>'') ctx)
                   (ctx_add ''body''
                      (''\<newline>    10. Date Order Check (check if customers account created date is after birth date):\<newline>       - There are ''
                       @ str_nat n @ '' rows where 'created_date' is before 'birth_date'.\<newline>    ''))
               else
                 ctx_add ''body''
                   ''\<newline>    10. Date Order Check (check if customers account created date is after birth date):\<newline>       - All 'created_date' entries are after 'birth_date'.\<newline>    ''
                   ctx)
      else
        ctx_add ''body''
          ''\<newline>    10. Date Order Check (check if customers account created date is after birth date):\<newline>       - No related columns found.\<newline>    ''
          ctx)"

subsection \<open>Categorical consistency\<close>

definition valid_states :: "string list" where
  "valid_states = [''AL'', ''AK'', ''AZ'', ''AR'', ''CA'', ''CO'', ''CT'', ''DC'', ''DE'', ''FL'', ''GA'',
     ''HI'', ''ID'', ''IL'', ''IN'', ''IA'', ''KS'', ''KY'', ''LA'', ''ME'', ''MD'', ''MA'', ''MI'', ''MN'',
     ''MS'', ''MO'', ''MT'', ''NE'', ''NV'', ''NH'', ''NJ'', ''NM'', ''NY'', ''NC'', ''ND'', ''OH'', ''OK'',
     ''OR'', ''PA'', ''PR'', ''RI'', ''SC'', ''SD'', ''TN'', ''TX'', ''UT'', ''VT'', ''VA'', ''WA'', ''WV'',
     ''WI'', ''WY'']"

definition valid_languages :: "string list" where
  "valid_languages = [''en'', ''es-419'', ''fr'', ''de'', ''it'', ''pt'', ''zh'', ''ja'', ''ko'', ''ar'',
     ''ru'', ''hi'', ''en-US'', ''en-GB'']"

definition valid_genders :: "string list" where
  "valid_genders = [''female'', ''male'', ''non_binary'', ''transgender'', ''prefer_not_to_say'',
     ''not_listed'', ''unknown'']"

fun isin :: "string list \<Rightarrow> cell \<Rightarrow> bool" where
  "isin valid (Str s) = (s \<in> set valid)"
| "isin valid c = False"

text \<open>
  \<^verbatim>\<open>df[~df[col].isin(valid)][col].unique()\<close>, each value then rendered with \<^verbatim>\<open>str\<close>, a
  missing one as \<^verbatim>\<open>NaN\<close>. What pandas does with the frame it hands back for a repeated
  label is outside the model; the pipeline stops before it gets here.
\<close>

definition invalid_values :: "env \<Rightarrow> table \<Rightarrow> string \<Rightarrow> string list \<Rightarrow> error + string list" where
  "invalid_values E df col valid =
     (case getitem df col of
        [c] \<Rightarrow> Inr (map (\<lambda>v. if \<not> isna v then str_cell E v else ''NaN'')
                      (unique [] (filter (\<lambda>v. \<not> isin valid v) (snd c))))
      | _ \<Rightarrow> Inl OutsideModel)"

definition report_invalid :: "string \<Rightarrow> string \<Rightarrow> string \<Rightarrow> string list \<Rightarrow> report_context \<Rightarrow> error + report_context" where
  "report_invalid body_prefix action_prefix action_suffix invalid ctx =
     (if length invalid > 0 then
        then_do (ctx_add ''body'' (body_prefix @ join '', '' invalid @ ''\<newline>'') ctx)
          (ctx_add ''action_items'' (action_prefix @ join '', '' invalid @ action_suffix))
      else Inr ctx)"

definition check_data_consistency :: "env \<Rightarrow> table \<Rightarrow> report_context \<Rightarrow> error + report_context" where
  "check_data_consistency E df ctx =
     (if ''STATE'' \<in> set (labels df) \<and> ''LANGUAGE'' \<in> set (labels df) \<and> ''GENDER'' \<in> set (labels df) then
        then_do (invalid_values E df ''STATE'' valid_states) (\<lambda>invalid_states.
        then_do (invalid_values E df ''LANGUAGE'' valid_languages) (\<lambda>invalid_languages.
        then_do (invalid_values E df ''GENDER'' valid_genders) (\<lambda>invalid_genders.
        then_do
          (ctx_add ''body''
             ''\<newline>    11. Data Consistency Check (check if STATE, LANGUAGE, and GENDER are consistent):\<newline>    ''
             ctx) (\<lambda>ctx1.
        then_do
          (report_invalid ''     - Invalid states detected: ''
             ''    - Resolve invalid states: Correct the following invalid states: '' ''.\<newline>''
             invalid_states ctx1) (\<lambda>ctx2.
        then_do
          (report_invalid ''         - Invalid languages detected: ''
             ''    - Resolve invalid languages: Correct the following invalid languages: '' ''.\<newline>''
             invalid_languages ctx2)
          (report_invalid ''         - Invalid gender values detected: ''
             ''    - Resolve invalid gender values: Address the following invalid gender values: ''
             ''.\<newline>'' invalid_genders))))))
      else
        ctx_add ''body''
          ''\<newline>    11. Data Consistency Check (check if STATE, LANGUAGE, and GENDER are consistent):\<newline>       - No related columns found.\<newline>    ''
          ctx)"

subsection \<open>Summary statistics\<close>

definition describe_data :: "env \<Rightarrow> table \<Rightarrow> report_context \<Rightarrow> error + report_context" where
  "describe_data E df ctx =
     (if numeric_empty E df then
        ctx_add ''body''
          ''\<newline>    12. Summary Statistics:\<newline>       - No numeric columns found.\<newline>        '' ctx
      else
        ctx_add ''body''
          (''\<newline>    12. Summary Statistics:\<newline>       '' @ describe_to_string E df @ ''\<newline>    '') ctx)"

section \<open>The pipeline\<close>

type_synonym step = "env \<Rightarrow> table \<Rightarrow> report_context \<Rightarrow> table \<times> (error + report_context)"

text \<open>A check that only reads the frame hands it on as it was.\<close>

definition reading :: "(env \<Rightarrow> table \<Rightarrow> report_context \<Rightarrow> error + report_context) \<Rightarrow> step" where
  "reading check E df ctx = (df, check E df ctx)"

definition TABLE_CHECK_STEPS :: "step list" where
  "TABLE_CHECK_STEPS =
     [reading get_dataframe_shape,
      reading check_column_spaces,
      reading check_duplicate_columns,
      reading get_column_data_types,
      reading find_potential_primary_key,
      reading check_null_columns,
      reading check_fully_duplicate_rows,
      reading check_mixed_data_types,
      check_date_validity,
      reading check_transaction_date_order,
      reading check_customer_date_order,
      reading check_data_consistency,
      reading describe_data]"

text \<open>The \<^verbatim>\<open>for step in TABLE_CHECK_STEPS\<close> loop; an exception ends the run.\<close>

fun run_steps :: "env \<Rightarrow> step list \<Rightarrow> table \<Rightarrow> report_context \<Rightarrow> table \<times> (error + report_context)" where
  "run_steps E [] df ctx = (df, Inr ctx)"
| "run_steps E (s # ss) df ctx =
     (case s E df ctx of
        (df', Inl e) \<Rightarrow> (df', Inl e)
      | (df', Inr ctx') \<Rightarrow> run_steps E ss df' ctx')"

definition initial_context :: "table \<Rightarrow> report_context" where
  "initial_context df =
     [''body'' \<mapsto> ''Here is the result of the initial data check for of table '' @ [CHR 0x27]
                   @ name df @ [CHR 0x27] @ '':\<newline>'',
      ''action_items'' \<mapsto> ''Action required:\<newline>'']"

definition ctx_get :: "string \<Rightarrow> report_context \<Rightarrow> error + string" where
  "ctx_get k ctx = (case ctx k of None \<Rightarrow> Inl (KeyError k) | Some v \<Rightarrow> Inr v)"

definition render :: "report_context \<Rightarrow> error + string" where
  "render ctx =
     then_do (ctx_get ''body'' ctx) (\<lambda>b.
     then_do (ctx_get ''action_items'' ctx) (\<lambda>a.
       Inr (''\<newline>    '' @ b @ ''\<newline>    \<newline>\<newline>    '' @ a @ ''\<newline>    '')))"

text \<open>
  \<^verbatim>\<open>print_summary\<close> returns the report; the frame it was given may have been rewritten
  in place, whether the run ends with a report or with an exception.
\<close>

definition print_summary :: "env \<Rightarrow> table \<Rightarrow> table \<times> (error + string)" where
  "print_summary E df =
     (case run_steps E TABLE_CHECK_STEPS df (initial_context df) of
        (df', Inl e) \<Rightarrow> (df', Inl e)
      | (df', Inr ctx) \<Rightarrow> (df', render ctx))"

text \<open>What a run may change in the frame: nothing outside the columns labelled in \<open>S\<close>.\<close>

definition unchanged_outside :: "string set \<Rightarrow> table \<Rightarrow> table \<Rightarrow> bool" where
  "unchanged_outside S df df' \<longleftrightarrow>
     name df' = name df \<and> nrows df' = nrows df \<and> labels df' = labels df
     \<and> (\<forall>i<length (columns df). fst (columns df ! i) \<notin> S \<longrightarrow> columns df' ! i = columns df ! i)"

text \<open>
  The report body grows by one fragment per check that returns. A fragment is numbered
  when, after its leading line break and indentation, it starts with a number and a full
  stop.
\<close>

fun run_trace :: "env \<Rightarrow> step list \<Rightarrow> table \<Rightarrow> report_context \<Rightarrow> report_context list" where
  "run_trace E [] df ctx = []"
| "run_trace E (s # ss) df ctx =
     (case s E df ctx of
        (df', Inl e) \<Rightarrow> []
      | (df', Inr ctx') \<Rightarrow> ctx' # run_trace E ss df' ctx')"

definition body_of :: "report_context \<Rightarrow> string" where
  "body_of ctx = (case ctx ''body'' of None \<Rightarrow> [] | Some b \<Rightarrow> b)"

fun fragments :: "string \<Rightarrow> string list \<Rightarrow> string list" where
  "fragments prev [] = []"
| "fragments prev (b # bs) = drop (length prev) b # fragments b bs"

definition body_fragments :: "env \<Rightarrow> table \<Rightarrow> string list" where
  "body_fragments E df =
     fragments (body_of (initial_context df))
       (map body_of (run_trace E TABLE_CHECK_STEPS df (initial_context df)))"

definition is_digit :: "char \<Rightarrow> bool" where
  "is_digit c = (48 \<le> (of_char c :: nat) \<and> (of_char c :: nat) \<le> 57)"

definition digits_value :: "string \<Rightarrow> nat" where
  "digits_value ds = foldl (\<lambda>n c. 10 * n + ((of_char c :: nat) - 48)) 0 ds"

definition section_no :: "string \<Rightarrow> nat option" where
  "section_no s =
     (let t = dropWhile (\<lambda>c. c = CHR ''\<newline>'' \<or> c = CHR '' '') s
      in if takeWhile is_digit t \<noteq> [] \<and> take 1 (dropWhile is_digit t) = ''.''
         then Some (digits_value (takeWhile is_digit t)) else None)"

definition numbered_findings :: "env \<Rightarrow> table \<Rightarrow> nat" where
  "numbered_findings E df = length (filter (\<lambda>f. section_no f \<noteq> None) (body_fragments E df))"

text \<open>
  A check that returns has grown both entries of the context, the body by a fragment with
  section number \<open>k\<close> (or by a fragment without a number, for \<open>None\<close>).
\<close>

definition grows :: "nat option \<Rightarrow> report_context \<Rightarrow> report_context \<Rightarrow> bool" where
  "grows k ctx ctx' \<longleftrightarrow>
     (\<exists>b a fb fa. ctx ''body'' = Some b \<and> ctx ''action_items'' = Some a
        \<and> ctx' ''body'' = Some (b @ fb) \<and> ctx' ''action_items'' = Some (a @ fa)
        \<and> section_no fb = k)"

definition appends :: "nat option \<Rightarrow> step \<Rightarrow> bool" where
  "appends k s \<longleftrightarrow>
     (\<forall>E df ctx df' ctx'. ctx ''body'' \<noteq> None \<and> ctx ''action_items'' \<noteq> None
        \<and> s E df ctx = (df', Inr ctx') \<longrightarrow> grows k ctx ctx')"

section \<open>Concrete frames and a concrete environment\<close>

text \<open>
  An environment for the concrete runs below. Its renderings are plain stand-ins for
  pandas' formatting; its \<^verbatim>\<open>float\<close> accepts unsigned decimal digits only.
\<close>

definition plain_float :: "string \<Rightarrow> error + rat" where
  "plain_float s = (if s \<noteq> [] \<and> list_all is_digit s then Inr (of_nat (digits_value s)) else Inl ValueError)"

fun plain_str :: "cell \<Rightarrow> string" where
  "plain_str (Str s) = s"
| "plain_str (Stamp t) = (if t < 0 then ''-'' @ str_nat (nat (- t)) else str_nat (nat t))"
| "plain_str (Other tn) = tn"
| "plain_str (Num q) = ''<number>''"
| "plain_str Null = ''nan''"

definition plain_env :: env where
  "plain_env =
     \<lparr> repr_str = (\<lambda>s. [CHR 0x27] @ s @ [CHR 0x27]),
       str_cell = plain_str,
       dtype_of = (\<lambda>vs. ''object''),
       info_to_string = (\<lambda>rs. join ''\<newline>'' (map info_column rs)),
       rows_to_string = (\<lambda>ls rs. join ''\<newline>'' (map (\<lambda>r. join '' '' (map plain_str r)) rs)),
       pct_str = (\<lambda>n rows. str_nat (n * 100 div rows)),
       float_of_str = plain_float,
       to_datetime = (\<lambda>c. Inl ValueError),
       now = (\<lambda>k. 1700000000000000000),
       numeric_empty = (\<lambda>df. True),
       describe_to_string = (\<lambda>df. []) \<rparr>"

text \<open>
  The users table of the specification's end-to-end example: \<open>ID = [1, 1, 3]\<close>, and the
  second row created before the birth date.
\<close>

definition users_table :: table where
  "users_table =
     \<lparr> name = ''users'', nrows = 3,
       columns = [(''ID'', [Num 1, Num 1, Num 3]),
                  (''BIRTH_DATE'', [Stamp 0, Stamp 86400000000000000, Stamp 0]),
                  (''CREATED_DATE'', [Stamp 1600000000000000000, Stamp 0, Stamp 1600000000000000000])] \<rparr>"


definition repeated_label_table :: table where
  "repeated_label_table =
     \<lparr> name = ''t'', nrows = 1, columns = [(''A'', [Num 1]), (''A'', [Num 2])] \<rparr>"

definition no_language_table :: table where
  "no_language_table =
     \<lparr> name = ''people'', nrows = 2,
       columns = [(''STATE'', [Str ''CA'', Str ''Atlantis'']), (''GENDER'', [Str ''female'', Str ''male''])] \<rparr>"


definition gaps_table :: table where
  "gaps_table =
     \<lparr> name = ''gaps'', nrows = 2,
       columns = [(''ID'', [Num 1, Num 2]), (''X'', [Null, Null]), (''Y'', [Null, Str ''a''])] \<rparr>"




section \<open>Properties\<close>

subsection \<open>The report context and the error plumbing\<close>


lemma ctx_add_Some: "ctx k = Some v \<Longrightarrow> ctx_add k s ctx = Inr (ctx(k \<mapsto> v @ s))"
  by (simp add: ctx_add_def)

lemma ctx_add_None: "ctx k = None \<Longrightarrow> ctx_add k s ctx = Inl (KeyError k)"
  by (simp add: ctx_add_def)

lemma then_do_Inr [simp]: "then_do (Inr x) f = f x"
  by (simp add: then_do_def)

lemma then_do_Inl [simp]: "then_do (Inl e) f = Inl e"
  by (simp add: then_do_def)

subsection \<open>Primary-key heuristic\<close>



subsection \<open>The classifier of the mixed-type check\<close>




subsection \<open>Categorical consistency\<close>

text \<open>
  C4. When one of \<^verbatim>\<open>STATE\<close>, \<^verbatim>\<open>LANGUAGE\<close>, \<^verbatim>\<open>GENDER\<close> is absent, the check appends the
  "No related columns found" finding to the body and nothing else: no value of the columns
  that are present is looked at, and no action item is added.
\<close>

theorem consistency_all_or_nothing:
  assumes "\<not> (''STATE'' \<in> set (labels df) \<and> ''LANGUAGE'' \<in> set (labels df) \<and> ''GENDER'' \<in> set (labels df))"
  shows "check_data_consistency E df ctx =
           ctx_add ''body''
             ''\<newline>    11. Data Consistency Check (check if STATE, LANGUAGE, and GENDER are consistent):\<newline>       - No related columns found.\<newline>    ''
             ctx
         \<and> (\<forall>ctx'. check_data_consistency E df ctx = Inr ctx' \<longrightarrow>
               ctx' ''action_items'' = ctx ''action_items'')"
  using assms
  by (auto simp: check_data_consistency_def ctx_add_def split: option.splits)

text \<open>
  A frame with \<^verbatim>\<open>STATE\<close> and \<^verbatim>\<open>GENDER\<close> but no \<^verbatim>\<open>LANGUAGE\<close>; its state \<^verbatim>\<open>Atlantis\<close> goes
  unreported.
\<close>

theorem consistency_all_or_nothing_witness:
  "check_data_consistency plain_env no_language_table (initial_context no_language_table) =
     ctx_add ''body''
       ''\<newline>    11. Data Consistency Check (check if STATE, LANGUAGE, and GENDER are consistent):\<newline>       - No related columns found.\<newline>    ''
       (initial_context no_language_table)"
  using consistency_all_or_nothing [of no_language_table plain_env "initial_context no_language_table"]
  by (simp add: no_language_table_def labels_def)

subsection \<open>Duplicate column names\<close>

text \<open>
  The duplicate-columns check appends its action to the key \<^verbatim>\<open>action\<close>; the context is
  created with \<^verbatim>\<open>body\<close> and \<^verbatim>\<open>action_items\<close> only, so the run ends there with KeyError.
\<close>

lemma repeated_label_aborts:
  assumes "duplicated_columns df \<noteq> []"
  shows "print_summary E df = (df, Inl (KeyError ''action''))"
  using assms
  by (simp add: print_summary_def TABLE_CHECK_STEPS_def reading_def initial_context_def
      get_dataframe_shape_def check_column_spaces_def check_duplicate_columns_def ctx_add_def)

text \<open>
  C2. A frame whose labels are \<open>A, A\<close>: the check finds the repeated label, and instead of
  adding one action to \<^verbatim>\<open>action_items\<close> and letting the run complete, it raises
  \<^verbatim>\<open>KeyError('action')\<close>, which ends \<^verbatim>\<open>print_summary\<close> without a report.
\<close>

theorem repeated_label_run:
  "duplicated_columns repeated_label_table = [''A'']
   \<and> check_duplicate_columns E repeated_label_table (initial_context repeated_label_table)
       = Inl (KeyError ''action'')
   \<and> print_summary E repeated_label_table = (repeated_label_table, Inl (KeyError ''action''))"
proof -
  have d: "duplicated_columns repeated_label_table = [''A'']"
    by (simp add: duplicated_columns_def repeated_label_table_def labels_def)
  have c: "check_duplicate_columns E repeated_label_table (initial_context repeated_label_table)
       = Inl (KeyError ''action'')"
    by (simp add: check_duplicate_columns_def d initial_context_def ctx_add_def)
  from d have "duplicated_columns repeated_label_table \<noteq> []" by simp
  from repeated_label_aborts [OF this] d c show ?thesis by simp
qed

subsection \<open>Date validity\<close>






subsection \<open>Fully duplicate rows\<close>




lemma length_duplicated [simp]: "length (duplicated seen xs) = length xs"
  by (induction xs arbitrary: seen) auto


lemma length_rows_of [simp]: "length (rows_of n cs) = n"
  by (simp add: rows_of_def)






subsection \<open>Columns without values in the primary-key scan\<close>

lemma all_null_rows_dropped:
  assumes "wf_table df" "c \<in> set (columns df)" "\<forall>v\<in>set (snd c). v = Null"
  shows "filter (\<lambda>r. \<not> list_ex isna r) (rows_of (nrows df) (getitem df (fst c))) = []"
proof -
  from assms(1,2) have len: "length (snd c) = nrows df"
    by (auto simp: wf_table_def list_all_iff)
  from assms(2) have mem: "c \<in> set (getitem df (fst c))"
    by (simp add: getitem_def)
  have "list_ex isna r" if "r \<in> set (rows_of (nrows df) (getitem df (fst c)))" for r
  proof -
    from that obtain i where i: "i < nrows df" and r: "r = map (\<lambda>c. snd c ! i) (getitem df (fst c))"
      by (auto simp: rows_of_def)
    from i len assms(3) have "snd c ! i = Null" by simp
    with mem r show ?thesis by (force simp: list_ex_iff isna_def)
  qed
  then show ?thesis by (simp add: filter_empty_conv)
qed

lemma primary_key_body_of_run:
  assumes "identifier_heuristic (labels df) = Some (ids, tn)"
    and "ctx ''body'' = Some b"
    and "find_potential_primary_key E df ctx = Inr ctx'"
    and "unique_identifiers df \<noteq> []"
  shows "\<exists>rest. ctx' ''body'' =
           Some (b @ ''\<newline>    4. Potential Unique Identifiers in '' @ tn @ '' table:\<newline>       - ''
                 @ ''Potential unique identifier(s): '' @ list_repr E (unique_identifiers df) @ ''.''
                 @ rest)"
proof (cases "check_identifiers df tn ids []")
  case (Inl e)
  with assms show ?thesis by (simp add: find_potential_primary_key_def)
next
  case (Inr inv)
  show ?thesis
  proof (cases "inv = []")
    case True
    with assms Inr show ?thesis
      by (auto simp: find_potential_primary_key_def ctx_add_def primary_key_body_def)
  next
    case False
    with assms Inr show ?thesis
      by (auto simp: find_potential_primary_key_def ctx_add_def primary_key_body_def
          split: option.splits)
  qed
qed

text \<open>
  C10. Duplicates are counted after the missing values are dropped, so a column whose
  cells are all missing (any column of a frame without rows among them) has no duplicate
  and is among the potential unique identifiers; when the heuristic has selected an
  identifier and the check returns, the finding it appends lists those columns.
\<close>

theorem all_null_column_listed:
  assumes "wf_table df" "c \<in> set (columns df)" "\<forall>v\<in>set (snd c). v = Null"
  shows "dropna_dup_count df (fst c) = 0
         \<and> fst c \<in> set (unique_identifiers df)
         \<and> (\<forall>ids tn b ctx'. identifier_heuristic (labels df) = Some (ids, tn)
               \<and> ctx ''body'' = Some b \<and> find_potential_primary_key E df ctx = Inr ctx' \<longrightarrow>
             (\<exists>rest. ctx' ''body'' =
                Some (b @ ''\<newline>    4. Potential Unique Identifiers in '' @ tn @ '' table:\<newline>       - ''
                      @ ''Potential unique identifier(s): '' @ list_repr E (unique_identifiers df) @ ''.''
                      @ rest)))"
proof -
  have z: "dropna_dup_count df (fst c) = 0"
    by (simp add: dropna_dup_count_def all_null_rows_dropped [OF assms] dup_count_def)
  with assms(2) have m: "fst c \<in> set (unique_identifiers df)"
    by (simp add: unique_identifiers_def labels_def)
  then have "unique_identifiers df \<noteq> []" by auto
  with z m show ?thesis
    by (blast intro: primary_key_body_of_run)
qed

text \<open>The all-missing column \<open>X\<close>, and both columns of a frame without rows.\<close>

theorem all_null_column_listed_witness:
  "''X'' \<in> set (unique_identifiers gaps_table)
   \<and> unique_identifiers \<lparr> name = ''none'', nrows = 0, columns = [(''ID'', []), (''Z'', [])] \<rparr>
       = [''ID'', ''Z'']"
proof -
  have w: "wf_table gaps_table" by code_simp
  have c: "(''X'', [Null, Null]) \<in> set (columns gaps_table)" by code_simp
  have n: "\<forall>v\<in>set (snd (''X'', [Null, Null])). v = Null" by simp
  have u: "unique_identifiers \<lparr> name = ''none'', nrows = 0, columns = [(''ID'', []), (''Z'', [])] \<rparr>
       = [''ID'', ''Z'']" by code_simp
  from all_null_column_listed [OF w c n, of "initial_context gaps_table" plain_env]
  have "fst (''X'', [Null, Null]) \<in> set (unique_identifiers gaps_table)" by blast
  with u show ?thesis by simp
qed

subsection \<open>Null columns\<close>

lemma info_nulls_row [simp]: "info_nulls (info_row_of E c) = null_count (snd c)"
  by (simp add: info_nulls_def info_row_of_def)

lemma info_column_row [simp]: "info_column (info_row_of E c) = fst c"
  by (simp add: info_column_def info_row_of_def)








subsection \<open>What the pipeline leaves alone\<close>

lemma unchanged_outside_refl: "unchanged_outside S df df"
  by (simp add: unchanged_outside_def)

lemma labels_nth:
  assumes "labels df' = labels df" "i < length (columns df)"
  shows "fst (columns df' ! i) = fst (columns df ! i)"
proof -
  from assms(1) have "length (columns df') = length (columns df)"
    unfolding labels_def by (rule map_eq_imp_length_eq)
  with assms(2) have "labels df' ! i = fst (columns df' ! i)" "labels df ! i = fst (columns df ! i)"
    by (simp_all add: labels_def)
  with assms(1) show ?thesis by simp
qed

lemma unchanged_outside_trans:
  assumes "unchanged_outside S df df1" "unchanged_outside S df1 df2"
  shows "unchanged_outside S df df2"
proof -
  from assms(1) have n1: "name df1 = name df" and r1: "nrows df1 = nrows df"
    and l: "labels df1 = labels df"
    and c1: "\<And>i. i < length (columns df) \<Longrightarrow> fst (columns df ! i) \<notin> S
               \<Longrightarrow> columns df1 ! i = columns df ! i"
    unfolding unchanged_outside_def by blast+
  from assms(2) have n2: "name df2 = name df1" and r2: "nrows df2 = nrows df1"
    and l2: "labels df2 = labels df1"
    and c2: "\<And>i. i < length (columns df1) \<Longrightarrow> fst (columns df1 ! i) \<notin> S
               \<Longrightarrow> columns df2 ! i = columns df1 ! i"
    unfolding unchanged_outside_def by blast+
  from l have len: "length (columns df1) = length (columns df)"
    unfolding labels_def by (rule map_eq_imp_length_eq)
  have c: "columns df2 ! i = columns df ! i"
    if i: "i < length (columns df)" and f: "fst (columns df ! i) \<notin> S" for i
  proof -
    from labels_nth [OF l i] f have "fst (columns df1 ! i) \<notin> S" by simp
    moreover from i len have "i < length (columns df1)" by simp
    ultimately have "columns df2 ! i = columns df1 ! i" by (rule c2 [rotated])
    also from i f have "\<dots> = columns df ! i" by (rule c1)
    finally show ?thesis .
  qed
  have "name df2 = name df" using n2 n1 by (rule trans)
  moreover have "nrows df2 = nrows df" using r2 r1 by (rule trans)
  moreover have "labels df2 = labels df" using l2 l by (rule trans)
  ultimately show ?thesis unfolding unchanged_outside_def using c by blast
qed

lemma unchanged_outside_setitem:
  assumes "col \<in> S"
  shows "unchanged_outside S df (setitem df col vals)"
  using assms by (auto simp: unchanged_outside_def setitem_def labels_def comp_def)

lemma unchanged_outside_date_scan:
  assumes "set cols \<subseteq> S"
  shows "unchanged_outside S df (fst (date_scan E k cols df invalid_dates))"
  using assms
proof (induction cols arbitrary: k df invalid_dates)
  case Nil
  then show ?case by (simp add: unchanged_outside_refl)
next
  case (Cons col cols)
  then have col: "col \<in> S" and cols: "set cols \<subseteq> S" by simp_all
  show ?case
  proof (cases "getitem df col")
    case Nil
    then show ?thesis by (simp add: unchanged_outside_refl)
  next
    case (Cons c cs)
    show ?thesis
    proof (cases cs)
      case (Cons c' cs')
      with \<open>getitem df col = c # cs\<close> show ?thesis by (simp add: unchanged_outside_refl)
    next
      case Nil
      with \<open>getitem df col = c # cs\<close> have g: "getitem df col = [c]" by simp
      show ?thesis
      proof (cases "to_datetime_col E (snd c)")
        case (Inl e)
        with g show ?thesis by (simp add: unchanged_outside_refl)
      next
        case (Inr vals)
        have "unchanged_outside S (setitem df col vals)
                (fst (date_scan E (Suc k) cols (setitem df col vals)
                   (if future_dates (now E k) vals \<noteq> []
                    then invalid_dates @ [col @ '' has future dates: ''
                       @ join '', '' (map (str_cell E) (unique [] (future_dates (now E k) vals)))
                       @ ''.'']
                    else invalid_dates)))"
          by (rule Cons.IH [OF cols])
        with unchanged_outside_setitem [OF col] have
          "unchanged_outside S df
                (fst (date_scan E (Suc k) cols (setitem df col vals)
                   (if future_dates (now E k) vals \<noteq> []
                    then invalid_dates @ [col @ '' has future dates: ''
                       @ join '', '' (map (str_cell E) (unique [] (future_dates (now E k) vals)))
                       @ ''.'']
                    else invalid_dates)))"
          by (rule unchanged_outside_trans)
        with g Inr show ?thesis by simp
      qed
    qed
  qed
qed

lemma unchanged_outside_check_date_validity:
  "unchanged_outside (set date_columns) df (fst (check_date_validity E df ctx))"
proof -
  let ?found = "filter (\<lambda>col. col \<in> set (labels df)) date_columns"
  have s: "set ?found \<subseteq> set date_columns" by auto
  have u: "unchanged_outside (set date_columns) df (fst (date_scan E 0 ?found df []))"
    by (rule unchanged_outside_date_scan [OF s])
  show ?thesis
  proof (cases "?found = []")
    case True
    then show ?thesis by (simp add: check_date_validity_def unchanged_outside_refl)
  next
    case False
    obtain df1 r where d: "date_scan E 0 ?found df [] = (df1, r)" by (cases "date_scan E 0 ?found df []")
    with u have "unchanged_outside (set date_columns) df df1" by simp
    with False d show ?thesis
      by (cases r) (simp_all add: check_date_validity_def)
  qed
qed

lemma unchanged_outside_reading: "unchanged_outside S df (fst (reading check E df ctx))"
  by (simp add: reading_def unchanged_outside_refl)

lemma unchanged_outside_run_steps:
  assumes "\<forall>s\<in>set ss. \<forall>E df ctx. unchanged_outside S df (fst (s E df ctx))"
  shows "unchanged_outside S df (fst (run_steps E ss df ctx))"
  using assms
proof (induction ss arbitrary: df ctx)
  case Nil
  then show ?case by (simp add: unchanged_outside_refl)
next
  case (Cons s ss)
  obtain df1 r where s: "s E df ctx = (df1, r)" by (cases "s E df ctx")
  from Cons.prems have "unchanged_outside S df (fst (s E df ctx))" by simp
  with s have 1: "unchanged_outside S df df1" by simp
  show ?case
  proof (cases r)
    case (Inl e)
    with s 1 show ?thesis by simp
  next
    case (Inr ctx1)
    from Cons.prems have "\<forall>s\<in>set ss. \<forall>E df ctx. unchanged_outside S df (fst (s E df ctx))"
      by simp
    then have "unchanged_outside S df1 (fst (run_steps E ss df1 ctx1))" by (rule Cons.IH)
    with 1 have "unchanged_outside S df (fst (run_steps E ss df1 ctx1))"
      by (rule unchanged_outside_trans)
    with s Inr show ?thesis by simp
  qed
qed

lemma unchanged_outside_print_summary:
  "unchanged_outside (set date_columns) df (fst (print_summary E df))"
proof -
  have "\<forall>s\<in>set TABLE_CHECK_STEPS. \<forall>E df ctx.
          unchanged_outside (set date_columns) df (fst (s E df ctx))"
    by (simp add: TABLE_CHECK_STEPS_def unchanged_outside_reading
        unchanged_outside_check_date_validity)
  then have "unchanged_outside (set date_columns) df
               (fst (run_steps E TABLE_CHECK_STEPS df (initial_context df)))"
    by (rule unchanged_outside_run_steps)
  then show ?thesis
    by (cases "run_steps E TABLE_CHECK_STEPS df (initial_context df)")
      (auto simp: print_summary_def split: sum.splits)
qed

lemma to_datetime_col_normalized:
  assumes "to_datetime_col E vs = Inr out"
  shows "\<forall>v\<in>set out. v = Null \<or> (\<exists>t. v = Stamp t)"
  using assms
proof (induction vs arbitrary: out)
  case Nil
  then show ?case by simp
next
  case (Cons c cs)
  from Cons.prems obtain d where d: "to_utc E c = Inr d"
    by (cases "to_utc E c") simp_all
  with Cons.prems obtain ds where ds: "to_datetime_col E cs = Inr ds"
    by (cases "to_datetime_col E cs") simp_all
  with d Cons.prems have out: "out = d # ds" by simp
  from d have "d = Null \<or> (\<exists>t. d = Stamp t)"
    by (auto simp: to_utc_def split: cell.splits sum.splits option.splits)
  with Cons.IH [OF ds] out show ?case by simp
qed

lemma setitem_columns:
  assumes "c \<in> set (columns (setitem df col vals))" "fst c = col"
  shows "snd c = vals"
proof -
  from assms(1) have "c \<in> (\<lambda>x. if fst x = col then (col, vals) else x) ` set (columns df)"
    by (simp add: setitem_def)
  then obtain x where "c = (if fst x = col then (col, vals) else x)" by (rule imageE)
  with assms(2) show ?thesis by (cases "fst x = col") simp_all
qed

lemma date_scan_normalized:
  assumes "distinct cols" and "date_scan E k cols df invalid_dates = (df', Inr r)"
  shows "\<forall>c\<in>set (columns df'). fst c \<in> set cols \<longrightarrow>
           (\<forall>v\<in>set (snd c). v = Null \<or> (\<exists>t. v = Stamp t))"
  using assms
proof (induction cols arbitrary: k df invalid_dates)
  case Nil
  then show ?case by simp
next
  case (Cons col cols)
  from Cons.prems(2) obtain c where g: "getitem df col = [c]"
    by (cases "getitem df col" rule: list.exhaust [case_product list.exhaust])
      (auto split: list.splits)
  from Cons.prems(2) g obtain vals where v: "to_datetime_col E (snd c) = Inr vals"
    by (cases "to_datetime_col E (snd c)") simp_all
  let ?df1 = "setitem df col vals"
  let ?inv = "if future_dates (now E k) vals \<noteq> []
              then invalid_dates @ [col @ '' has future dates: ''
                     @ join '', '' (map (str_cell E) (unique [] (future_dates (now E k) vals)))
                     @ ''.'']
              else invalid_dates"
  from Cons.prems(2) g v have rest: "date_scan E (Suc k) cols ?df1 ?inv = (df', Inr r)"
    by simp
  from Cons.prems(1) have d: "distinct cols" and n: "col \<notin> set cols" by simp_all
  note ih = Cons.IH [OF d rest]
  have u: "unchanged_outside (set cols) ?df1 df'"
    using unchanged_outside_date_scan [of cols "set cols" ?df1 E "Suc k" ?inv] rest by simp
  have "\<forall>v\<in>set (snd x). v = Null \<or> (\<exists>t. v = Stamp t)"
    if x: "x \<in> set (columns df')" and f: "fst x = col" for x
  proof -
    from u have l: "labels df' = labels ?df1"
      and same: "\<And>i. i < length (columns ?df1) \<Longrightarrow> fst (columns ?df1 ! i) \<notin> set cols
                   \<Longrightarrow> columns df' ! i = columns ?df1 ! i"
      unfolding unchanged_outside_def by blast+
    from l have len: "length (columns df') = length (columns ?df1)"
      unfolding labels_def by (rule map_eq_imp_length_eq)
    from x obtain i where i: "i < length (columns df')" and xi: "x = columns df' ! i"
      by (auto simp: in_set_conv_nth)
    from i len have i1: "i < length (columns ?df1)" by simp
    from labels_nth [OF l i1] xi f have "fst (columns ?df1 ! i) = col" by simp
    with n have "fst (columns ?df1 ! i) \<notin> set cols" by simp
    with same [OF i1] xi have "x = columns ?df1 ! i" by simp
    with i1 have "x \<in> set (columns ?df1)" by simp
    then have "snd x = vals" using f by (rule setitem_columns)
    with to_datetime_col_normalized [OF v] show ?thesis by simp
  qed
  with ih show ?case by auto
qed

lemma check_date_validity_normalized:
  assumes "check_date_validity E df ctx = (df', Inr ctx')"
  shows "\<forall>c\<in>set (columns df'). fst c \<in> set date_columns \<longrightarrow>
           (\<forall>v\<in>set (snd c). v = Null \<or> (\<exists>t. v = Stamp t))"
proof -
  let ?found = "filter (\<lambda>col. col \<in> set (labels df)) date_columns"
  have dist: "distinct ?found" by (simp add: date_columns_def)
  have l: "labels df' = labels df"
    using unchanged_outside_check_date_validity [of df E ctx] assms
    by (simp add: unchanged_outside_def)
  have in_found: "fst c \<in> set ?found"
    if "c \<in> set (columns df')" "fst c \<in> set date_columns" for c
  proof -
    from that(1) have "fst c \<in> set (labels df')" by (simp add: labels_def)
    with l that(2) show ?thesis by simp
  qed
  show ?thesis
  proof (cases "?found = []")
    case True
    with in_found show ?thesis by auto
  next
    case False
    obtain df1 r where d: "date_scan E 0 ?found df [] = (df1, r)"
      by (cases "date_scan E 0 ?found df []")
    with False assms obtain inv where r: "r = Inr inv" and df1: "df1 = df'"
      by (cases r) (auto simp: check_date_validity_def split: if_splits)
    with d have "date_scan E 0 ?found df [] = (df', Inr inv)" by simp
    from date_scan_normalized [OF dist this] in_found show ?thesis by blast
  qed
qed

lemma run_steps_establishes:
  assumes "\<forall>s\<in>set ss. \<forall>E df ctx df' ctx'. s E df ctx = (df', Inr ctx') \<longrightarrow> Q df \<longrightarrow> Q df'"
    and "Q df \<or> (\<exists>s\<in>set ss. \<forall>E df ctx df' ctx'. s E df ctx = (df', Inr ctx') \<longrightarrow> Q df')"
    and "run_steps E ss df ctx = (df', Inr ctx')"
  shows "Q df'"
  using assms
proof (induction ss arbitrary: df ctx)
  case Nil
  then show ?case by simp
next
  case (Cons s ss)
  obtain df1 r where s: "s E df ctx = (df1, r)" by (cases "s E df ctx")
  with Cons.prems(3) obtain ctx1 where r: "r = Inr ctx1" by (cases r) simp_all
  with s Cons.prems(3) have rest: "run_steps E ss df1 ctx1 = (df', Inr ctx')" by simp
  from s r have s1: "s E df ctx = (df1, Inr ctx1)" by simp
  from Cons.prems(1) have p: "\<forall>s\<in>set ss. \<forall>E df ctx df' ctx'. s E df ctx = (df', Inr ctx') \<longrightarrow> Q df \<longrightarrow> Q df'"
    by simp
  have q: "Q df1 \<or> (\<exists>s\<in>set ss. \<forall>E df ctx df' ctx'. s E df ctx = (df', Inr ctx') \<longrightarrow> Q df')"
  proof (cases "Q df")
    case True
    with Cons.prems(1) s1 have "Q df1" by (meson list.set_intros(1))
    then show ?thesis ..
  next
    case False
    with Cons.prems(2) obtain s' where s': "s' \<in> set (s # ss)"
      and e: "\<forall>E df ctx df' ctx'. s' E df ctx = (df', Inr ctx') \<longrightarrow> Q df'" by blast
    show ?thesis
    proof (cases "s' = s")
      case True
      with e s1 have "Q df1" by blast
      then show ?thesis ..
    next
      case False
      with s' have "s' \<in> set ss" by simp
      with e show ?thesis by blast
    qed
  qed
  from p q rest show ?case by (rule Cons.IH)
qed

lemma print_summary_normalized:
  assumes "print_summary E df = (df', Inr report)"
  shows "\<forall>c\<in>set (columns df'). fst c \<in> set date_columns \<longrightarrow>
           (\<forall>v\<in>set (snd c). v = Null \<or> (\<exists>t. v = Stamp t))"
proof -
  let ?Q = "\<lambda>d. \<forall>c\<in>set (columns d). fst c \<in> set date_columns \<longrightarrow>
              (\<forall>v\<in>set (snd c). v = Null \<or> (\<exists>t. v = Stamp t))"
  obtain df1 r where run: "run_steps E TABLE_CHECK_STEPS df (initial_context df) = (df1, r)"
    by (cases "run_steps E TABLE_CHECK_STEPS df (initial_context df)")
  with assms obtain ctx where "r = Inr ctx" and "df1 = df'"
    by (cases r) (simp_all add: print_summary_def)
  with run have run': "run_steps E TABLE_CHECK_STEPS df (initial_context df) = (df', Inr ctx)"
    by simp
  have est: "\<forall>E df ctx df' ctx'. check_date_validity E df ctx = (df', Inr ctx') \<longrightarrow> ?Q df'"
    using check_date_validity_normalized by blast
  have rd: "\<forall>E df ctx df' ctx'. reading check E df ctx = (df', Inr ctx') \<longrightarrow> ?Q df \<longrightarrow> ?Q df'"
    for check
    by (simp add: reading_def)
  have pres: "\<forall>s\<in>set TABLE_CHECK_STEPS.
                \<forall>E df ctx df' ctx'. s E df ctx = (df', Inr ctx') \<longrightarrow> ?Q df \<longrightarrow> ?Q df'"
    unfolding TABLE_CHECK_STEPS_def using est rd by (simp del: reading_def)
  have "check_date_validity \<in> set TABLE_CHECK_STEPS"
    by (simp add: TABLE_CHECK_STEPS_def)
  with est have "?Q df \<or> (\<exists>s\<in>set TABLE_CHECK_STEPS.
                   \<forall>E df ctx df' ctx'. s E df ctx = (df', Inr ctx') \<longrightarrow> ?Q df')"
    by blast
  with pres show ?thesis using run' by (rule run_steps_establishes)
qed

text \<open>
  C8. However the run ends, the frame keeps its name, its row count and its labels, and
  every column whose label is not one of \<^verbatim>\<open>PURCHASE_DATE\<close>, \<^verbatim>\<open>SCAN_DATE\<close>,
  \<^verbatim>\<open>CREATED_DATE\<close>, \<^verbatim>\<open>BIRTH_DATE\<close> is what it was before the run: only the date
  columns may be rewritten, by the date-validity check. When the run returns a report,
  every column with one of those labels holds UTC timestamps and missing values only.
\<close>

theorem pipeline_frame:
  assumes "print_summary E df = (df', result)"
  shows "name df' = name df \<and> nrows df' = nrows df \<and> labels df' = labels df
         \<and> (\<forall>i<length (columns df).
               fst (columns df ! i) \<notin> {''PURCHASE_DATE'', ''SCAN_DATE'', ''CREATED_DATE'', ''BIRTH_DATE''}
               \<longrightarrow> columns df' ! i = columns df ! i)
         \<and> (\<forall>report. result = Inr report \<longrightarrow>
               (\<forall>c\<in>set (columns df').
                  fst c \<in> {''PURCHASE_DATE'', ''SCAN_DATE'', ''CREATED_DATE'', ''BIRTH_DATE''}
                  \<longrightarrow> (\<forall>v\<in>set (snd c). v = Null \<or> (\<exists>t. v = Stamp t))))"
proof -
  from unchanged_outside_print_summary [of df E] assms
  have "unchanged_outside (set date_columns) df df'" by simp
  then have 1: "name df' = name df \<and> nrows df' = nrows df \<and> labels df' = labels df
         \<and> (\<forall>i<length (columns df).
               fst (columns df ! i) \<notin> {''PURCHASE_DATE'', ''SCAN_DATE'', ''CREATED_DATE'', ''BIRTH_DATE''}
               \<longrightarrow> columns df' ! i = columns df ! i)"
    by (simp add: unchanged_outside_def date_columns_def)
  have 2: "\<forall>c\<in>set (columns df').
                  fst c \<in> {''PURCHASE_DATE'', ''SCAN_DATE'', ''CREATED_DATE'', ''BIRTH_DATE''}
                  \<longrightarrow> (\<forall>v\<in>set (snd c). v = Null \<or> (\<exists>t. v = Stamp t))"
    if "result = Inr report" for report
    using print_summary_normalized [of E df df' report] assms that
    by (simp add: date_columns_def)
  from 1 2 show ?thesis by blast
qed

lemma users_run_returns: "\<not> isl (snd (print_summary plain_env users_table))"
  by code_simp

text \<open>
  The \<open>ID\<close> column of the users table comes out as it went in, and its birth dates are
  timestamps.
\<close>

theorem pipeline_frame_witness:
  "columns (fst (print_summary plain_env users_table)) ! 0 = (''ID'', [Num 1, Num 1, Num 3])
   \<and> labels (fst (print_summary plain_env users_table)) = [''ID'', ''BIRTH_DATE'', ''CREATED_DATE'']
   \<and> list_all (\<lambda>v. v = Null \<or> is_stamp v)
        (snd (columns (fst (print_summary plain_env users_table)) ! 1))"
proof -
  define df' where "df' = fst (print_summary plain_env users_table)"
  obtain report where r: "snd (print_summary plain_env users_table) = Inr report"
    using users_run_returns by (cases "snd (print_summary plain_env users_table)") simp_all
  have p: "print_summary plain_env users_table = (df', Inr report)"
    unfolding df'_def using r by (simp add: prod_eq_iff)
  note t = pipeline_frame [OF p]
  have lu: "labels users_table = [''ID'', ''BIRTH_DATE'', ''CREATED_DATE'']"
    by (simp add: users_table_def labels_def)
  from t have "labels df' = labels users_table"
    by (rule conjunct2 [THEN conjunct2, THEN conjunct1])
  with lu have l: "labels df' = [''ID'', ''BIRTH_DATE'', ''CREATED_DATE'']" by (rule trans [rotated])
  from t have frame: "\<forall>i<length (columns users_table).
               fst (columns users_table ! i) \<notin> {''PURCHASE_DATE'', ''SCAN_DATE'', ''CREATED_DATE'', ''BIRTH_DATE''}
               \<longrightarrow> columns df' ! i = columns users_table ! i"
    by (rule conjunct2 [THEN conjunct2, THEN conjunct2, THEN conjunct1])
  have "0 < length (columns users_table)"
    and "fst (columns users_table ! 0) \<notin> {''PURCHASE_DATE'', ''SCAN_DATE'', ''CREATED_DATE'', ''BIRTH_DATE''}"
    and u0: "columns users_table ! 0 = (''ID'', [Num 1, Num 1, Num 3])"
    by (simp_all add: users_table_def)
  with frame have "columns df' ! 0 = columns users_table ! 0" by blast
  with u0 have c0: "columns df' ! 0 = (''ID'', [Num 1, Num 1, Num 3])" by (rule trans [rotated])
  from t have norm: "\<forall>report'. (Inr report :: error + string) = Inr report' \<longrightarrow>
               (\<forall>c\<in>set (columns df').
                  fst c \<in> {''PURCHASE_DATE'', ''SCAN_DATE'', ''CREATED_DATE'', ''BIRTH_DATE''}
                  \<longrightarrow> (\<forall>v\<in>set (snd c). v = Null \<or> (\<exists>t. v = Stamp t)))"
    by (rule conjunct2 [THEN conjunct2, THEN conjunct2, THEN conjunct2])
  have "length (labels df') = 3" unfolding l by simp
  then have len: "length (columns df') = 3" by (simp add: labels_def)
  then have m: "columns df' ! 1 \<in> set (columns df')" by simp
  have "labels df' ! 1 = ''BIRTH_DATE''" unfolding l by simp
  with len have f: "fst (columns df' ! 1) = ''BIRTH_DATE''" by (simp add: labels_def)
  from norm m have "fst (columns df' ! 1) \<in> {''PURCHASE_DATE'', ''SCAN_DATE'', ''CREATED_DATE'', ''BIRTH_DATE''}
                  \<longrightarrow> (\<forall>v\<in>set (snd (columns df' ! 1)). v = Null \<or> (\<exists>t. v = Stamp t))"
    by blast
  moreover have "fst (columns df' ! 1) \<in> {''PURCHASE_DATE'', ''SCAN_DATE'', ''CREATED_DATE'', ''BIRTH_DATE''}"
    unfolding f by simp
  ultimately have "\<forall>v\<in>set (snd (columns df' ! 1)). v = Null \<or> (\<exists>t. v = Stamp t)" by (rule mp)
  then have n: "list_all (\<lambda>v. v = Null \<or> is_stamp v) (snd (columns df' ! 1))"
    by (auto simp: list_all_iff)
  show ?thesis unfolding df'_def [symmetric] by (rule conjI [OF c0 conjI [OF l n]])
qed

subsection \<open>The sections of the report\<close>

lemma add_body:
  assumes "ctx ''body'' = Some b" "ctx ''action_items'' = Some a"
    and "ctx_add ''body'' t ctx = Inr ctx'" and "section_no t = k"
  shows "grows k ctx ctx'"
proof -
  from assms(1,3) have "ctx' = ctx(''body'' \<mapsto> b @ t)" by (simp add: ctx_add_def)
  with assms show ?thesis unfolding grows_def by (intro exI [of _ b] exI [of _ a] exI [of _ t] exI [of _ "[]"]) simp
qed

lemma add_action_body:
  assumes "ctx ''body'' = Some b" "ctx ''action_items'' = Some a"
    and "then_do (ctx_add ''action_items'' u ctx) (ctx_add ''body'' t) = Inr ctx'"
    and "section_no t = k"
  shows "grows k ctx ctx'"
proof -
  from assms(2) have 1: "ctx_add ''action_items'' u ctx = Inr (ctx(''action_items'' \<mapsto> a @ u))"
    by (simp add: ctx_add_def)
  with assms(1,3) have "ctx' = ctx(''action_items'' \<mapsto> a @ u, ''body'' \<mapsto> b @ t)"
    by (simp add: ctx_add_def)
  with assms show ?thesis unfolding grows_def
    by (intro exI [of _ b] exI [of _ a] exI [of _ t] exI [of _ u]) simp
qed

lemmas section_no_simps = section_no_def is_digit_def digits_value_def

lemma shape_grows:
  assumes "ctx ''body'' = Some b" "ctx ''action_items'' = Some a"
    and "get_dataframe_shape E df ctx = Inr ctx'"
  shows "grows (Some 1) ctx ctx'"
  using assms unfolding get_dataframe_shape_def
  by (rule add_body) (simp add: section_no_simps)

lemma column_spaces_grows:
  assumes "ctx ''body'' = Some b" "ctx ''action_items'' = Some a"
    and "check_column_spaces E df ctx = Inr ctx'"
  shows "grows (Some 2) ctx ctx'"
proof (cases "col_with_spaces df \<noteq> []")
  case True
  with assms(3) have "then_do
          (ctx_add ''action_items''
             (''    - Column name cleanup: Remove leading/trailing spaces in columns, or replace inner spaces with underscores (`_`) in the column ''
              @ list_repr E (col_with_spaces df) @ ''.\<newline>'') ctx)
          (ctx_add ''body''
             (column_spaces_body (''Columns with spaces: '' @ list_repr E (col_with_spaces df))))
        = Inr ctx'"
    by (simp add: check_column_spaces_def)
  with assms(1,2) show ?thesis
    by (rule add_action_body) (simp add: column_spaces_body_def section_no_simps)
next
  case False
  with assms(3) have "ctx_add ''body'' (column_spaces_body ''No column names have extra spaces.'') ctx
        = Inr ctx'"
    by (simp add: check_column_spaces_def)
  with assms(1,2) show ?thesis
    by (rule add_body) (simp add: column_spaces_body_def section_no_simps)
qed

lemma duplicate_columns_grows:
  assumes "ctx ''body'' = Some b" "ctx ''action_items'' = Some a"
    and "check_duplicate_columns E df ctx = Inr ctx'"
  shows "grows None ctx ctx'"
proof (cases "duplicated_columns df \<noteq> []")
  case True
  let ?u = "''    - Resolve duplicate columns: Consider to rename or remove duplicate column names ''
              @ list_repr E (duplicated_columns df) @ '' to maintain data integrity.\<newline>''"
  let ?t = "''   - '' @ (''Duplicate column names found: '' @ list_repr E (duplicated_columns df))
              @ ''\<newline>''"
  from True assms(3) have r: "then_do (ctx_add ''action'' ?u ctx) (ctx_add ''body'' ?t) = Inr ctx'"
    by (simp add: check_duplicate_columns_def)
  then obtain x where x: "ctx ''action'' = Some x"
    by (cases "ctx ''action''") (simp_all add: ctx_add_def)
  with r assms(1) have "ctx' = ctx(''action'' \<mapsto> x @ ?u, ''body'' \<mapsto> b @ ?t)"
    by (simp add: ctx_add_def)
  with assms(1,2) show ?thesis unfolding grows_def
    by (intro exI [of _ b] exI [of _ a] exI [of _ ?t] exI [of _ "[]"])
      (simp add: section_no_simps)
next
  case False
  with assms(3) have "ctx_add ''body'' (''   - '' @ ''No duplicate column names.'' @ ''\<newline>'') ctx
        = Inr ctx'"
    by (simp add: check_duplicate_columns_def)
  with assms(1,2) show ?thesis
    by (rule add_body) (simp add: section_no_simps)
qed

lemma data_types_grows:
  assumes "ctx ''body'' = Some b" "ctx ''action_items'' = Some a"
    and "get_column_data_types E df ctx = Inr ctx'"
  shows "grows (Some 3) ctx ctx'"
  using assms unfolding get_column_data_types_def
  by (rule add_body) (simp add: section_no_simps)

lemma primary_key_grows:
  assumes "ctx ''body'' = Some b" "ctx ''action_items'' = Some a"
    and "find_potential_primary_key E df ctx = Inr ctx'"
  shows "grows (Some 4) ctx ctx'"
proof (cases "identifier_heuristic (labels df)")
  case None
  with assms(3) have "ctx_add ''body''
            ''\<newline>        4. Potential Unique Identifiers:\<newline>           - No unique identifier columns found in this table.\<newline>        ''
            ctx = Inr ctx'"
    by (simp add: find_potential_primary_key_def)
  with assms(1,2) show ?thesis
    by (rule add_body) (simp add: section_no_simps)
next
  case (Some p)
  obtain ids tn where p: "p = (ids, tn)" by (cases p)
  show ?thesis
  proof (cases "check_identifiers df tn ids []")
    case (Inl e)
    with Some p assms(3) show ?thesis by (simp add: find_potential_primary_key_def)
  next
    case (Inr inv)
    let ?pk = "if unique_identifiers df \<noteq> []
               then ''Potential unique identifier(s): '' @ list_repr E (unique_identifiers df) @ ''.''
               else ''No unique and non-null identifier detected.''"
    show ?thesis
    proof (cases "inv \<noteq> []")
      case True
      with Some p Inr assms(3) have "then_do
                       (ctx_add ''action_items''
                          (''    - Resolve issues with unique identifiers: ''
                           @ join '', '' inv @ ''\<newline>'') ctx)
                       (ctx_add ''body''
                          (primary_key_body tn
                             (?pk @ ''\<newline>       - Invalid unique identifiers: ''
                              @ join '', '' inv))) = Inr ctx'"
        by (simp add: find_potential_primary_key_def Let_def)
      with assms(1,2) show ?thesis
        by (rule add_action_body) (simp add: primary_key_body_def section_no_simps)
    next
      case False
      with Some p Inr assms(3) have "ctx_add ''body'' (primary_key_body tn ?pk) ctx = Inr ctx'"
        by (simp add: find_potential_primary_key_def Let_def)
      with assms(1,2) show ?thesis
        by (rule add_body) (simp add: primary_key_body_def section_no_simps)
    qed
  qed
qed

lemma null_columns_grows:
  assumes "ctx ''body'' = Some b" "ctx ''action_items'' = Some a"
    and "check_null_columns E df ctx = Inr ctx'"
  shows "grows (Some 5) ctx ctx'"
proof -
  have s: "section_no (null_columns_body t) = Some 5" for t
    by (simp add: null_columns_body_def section_no_simps)
  let ?info = "priv_get_column_data_types E df"
  show ?thesis
  proof (cases "list_all (\<lambda>r. info_nulls r = nrows df) ?info")
    case True
    with assms(3) have "then_do
                 (ctx_add ''action_items''
                    (''    - Handle fully NULL columns: Remove columns ''
                     @ join '', '' (map info_column (filter (\<lambda>r. info_nulls r = nrows df) ?info))
                     @ '' that contain only null values.\<newline>'') ctx)
                 (ctx_add ''body''
                    (null_columns_body (''Fully NULL columns: ''
                       @ join '', '' (map info_column (filter (\<lambda>r. info_nulls r = nrows df) ?info))
                       @ ''.''))) = Inr ctx'"
      by (simp add: check_null_columns_def Let_def)
    with assms(1,2) show ?thesis by (rule add_action_body) (rule s)
  next
    case False
    show ?thesis
    proof (cases "list_ex (\<lambda>r. info_nulls r > 0) ?info")
      case True
      let ?msg = "''\<newline>          - ''
                  @ join ''\<newline>          - ''
                      (partial_null_details E (nrows df) (filter (\<lambda>r. info_nulls r > 0) ?info))"
      from True False assms(3) have "then_do
                 (ctx_add ''action_items''
                    (''    - Handle missing data: The following columns contain missing values:''
                     @ ?msg @ ''\<newline>'') ctx)
                 (ctx_add ''body'' (null_columns_body (''Partially NULL columns: '' @ ?msg)))
               = Inr ctx'"
        by (simp add: check_null_columns_def Let_def)
      with assms(1,2) show ?thesis by (rule add_action_body) (rule s)
    next
      case n: False
      with False assms(3) have "ctx_add ''body''
                (null_columns_body ''No NULL columns detected. All columns are fully populated.'') ctx
               = Inr ctx'"
        by (simp add: check_null_columns_def Let_def)
      with assms(1,2) show ?thesis by (rule add_body) (rule s)
    qed
  qed
qed

lemma duplicate_rows_grows:
  assumes "ctx ''body'' = Some b" "ctx ''action_items'' = Some a"
    and "check_fully_duplicate_rows E df ctx = Inr ctx'"
  shows "grows (Some 6) ctx ctx'"
proof -
  have s: "section_no (duplicate_rows_body t) = Some 6" for t
    by (simp add: duplicate_rows_body_def section_no_simps)
  show ?thesis
  proof (cases "fully_duplicate df = 0")
    case True
    with assms(3) have "ctx_add ''body'' (duplicate_rows_body ''No fully duplicate rows.'') ctx = Inr ctx'"
      by (simp add: check_fully_duplicate_rows_def)
    with assms(1,2) show ?thesis by (rule add_body) (rule s)
  next
    case False
    show ?thesis
    proof (cases "duplicate_examples df")
      case (Inl e)
      with False assms(3) show ?thesis by (simp add: check_fully_duplicate_rows_def)
    next
      case (Inr examples)
      with False assms(3) have "then_do
               (ctx_add ''action_items''
                  (''    - Remove duplicate rows: Consider to remove '' @ str_nat (fully_duplicate df)
                   @ '' duplicate entries. Example rows: \<newline>''
                   @ rows_to_string E (labels df) examples @ ''\<newline>'') ctx)
               (ctx_add ''body''
                  (duplicate_rows_body
                     (''There are '' @ str_nat (fully_duplicate df)
                      @ '' duplicate rows. Here are a few examples:\<newline>''
                      @ rows_to_string E (labels df) examples))) = Inr ctx'"
        by (simp add: check_fully_duplicate_rows_def)
      with assms(1,2) show ?thesis by (rule add_action_body) (rule s)
    qed
  qed
qed

lemma mixed_types_grows:
  assumes "ctx ''body'' = Some b" "ctx ''action_items'' = Some a"
    and "check_mixed_data_types E df ctx = Inr ctx'"
  shows "grows (Some 7) ctx ctx'"
proof -
  have s: "section_no (mixed_types_body t) = Some 7" for t
    by (simp add: mixed_types_body_def section_no_simps)
  show ?thesis
  proof (cases "mixed_scan E df (labels df)")
    case (Inl e)
    with assms(3) show ?thesis by (simp add: check_mixed_data_types_def)
  next
    case (Inr column_types)
    show ?thesis
    proof (cases "map fst column_types \<noteq> []")
      case True
      with Inr assms(3) have "then_do
                  (ctx_add ''action_items''
                     (''    - Resolve mixed data type issues: Standardize data types in the following columns: ''
                      @ list_repr E (map fst column_types) @ '' to ensure consistency.\<newline>'') ctx)
                  (ctx_add ''body''
                     (mixed_types_body
                        (''Columns with mixed data types: '' @ list_repr E (map fst column_types) @ ''.''
                         @ ''\<newline>       - Different types in these columns:\<newline>          - ''
                         @ join ''\<newline>          - ''
                             (map (\<lambda>ct. fst ct @ '': '' @ join '', '' (snd ct)) column_types))))
                = Inr ctx'"
        by (simp add: check_mixed_data_types_def Let_def)
      with assms(1,2) show ?thesis by (rule add_action_body) (rule s)
    next
      case False
      with Inr assms(3) have "ctx_add ''body'' (mixed_types_body ''No columns have mixed data types.'') ctx
                = Inr ctx'"
        by (simp add: check_mixed_data_types_def Let_def)
      with assms(1,2) show ?thesis by (rule add_body) (rule s)
    qed
  qed
qed

lemma date_validity_grows:
  assumes "ctx ''body'' = Some b" "ctx ''action_items'' = Some a"
    and "check_date_validity E df ctx = (df', Inr ctx')"
  shows "grows (Some 8) ctx ctx'"
proof -
  have s: "section_no (date_validity_body t) = Some 8" for t
    by (simp add: date_validity_body_def section_no_simps)
  let ?found = "filter (\<lambda>col. col \<in> set (labels df)) date_columns"
  show ?thesis
  proof (cases "?found = []")
    case True
    with assms(3) have "ctx_add ''body'' (date_validity_body ''No date columns in this table.'') ctx
            = Inr ctx'"
      by (simp add: check_date_validity_def)
    with assms(1,2) show ?thesis by (rule add_body) (rule s)
  next
    case False
    obtain df1 r where d: "date_scan E 0 ?found df [] = (df1, r)"
      by (cases "date_scan E 0 ?found df []")
    show ?thesis
    proof (cases r)
      case (Inl e)
      with False d assms(3) show ?thesis by (simp add: check_date_validity_def)
    next
      case (Inr invalid_dates)
      show ?thesis
      proof (cases "invalid_dates \<noteq> []")
        case True
        with False d Inr assms(3) have "then_do
                      (ctx_add ''action_items''
                         (''    - Correct invalid dates: Update or remove the following dates to ensure accuracy:\<newline>       - ''
                          @ join ''\<newline>       - '' invalid_dates @ ''\<newline>'') ctx)
                      (ctx_add ''body''
                         (date_validity_body (join ''\<newline>       - '' invalid_dates))) = Inr ctx'"
          by (simp add: check_date_validity_def)
        with assms(1,2) show ?thesis by (rule add_action_body) (rule s)
      next
        case n: False
        with False d Inr assms(3) have "ctx_add ''body'' (date_validity_body ''All date columns are valid.'') ctx
            = Inr ctx'"
          by (simp add: check_date_validity_def)
        with assms(1,2) show ?thesis by (rule add_body) (rule s)
      qed
    qed
  qed
qed

lemma transaction_date_order_grows:
  assumes "ctx ''body'' = Some b" "ctx ''action_items'' = Some a"
    and "check_transaction_date_order E df ctx = Inr ctx'"
  shows "grows (Some 9) ctx ctx'"
proof (cases "''SCAN_DATE'' \<in> set (labels df) \<and> ''PURCHASE_DATE'' \<in> set (labels df)")
  case False
  with assms(3) have "ctx_add ''body''
          ''\<newline>    9. Date Order Check (check if receipt scan date is after purchase date):\<newline>       - No related columns found.\<newline>    ''
          ctx = Inr ctx'"
    by (simp add: check_transaction_date_order_def)
  with assms(1,2) show ?thesis by (rule add_body) (simp add: section_no_simps)
next
  case True
  show ?thesis
  proof (cases "invalid_date_rows df ''SCAN_DATE'' ''PURCHASE_DATE''")
    case (Inl e)
    with True assms(3) show ?thesis by (simp add: check_transaction_date_order_def)
  next
    case (Inr n)
    show ?thesis
    proof (cases "n \<noteq> 0")
      case True
      with \<open>''SCAN_DATE'' \<in> set (labels df) \<and> ''PURCHASE_DATE'' \<in> set (labels df)\<close> Inr assms(3)
      have "then_do
                   (ctx_add ''action_items''
                      (''    - Correct date order: 'scan_date' should be after 'purchase_date'. Found invalid entries in ''
                       @ str_nat n @ '' rows.\<newline>'') ctx)
                   (ctx_add ''body''
                      (''\<newline>    9. Date Order Check (check if receipt scan date is after purchase date):\<newline>       - There are ''
                       @ str_nat n @ '' rows where 'scan_date' is before 'purchase_date'.\<newline>    ''))
              = Inr ctx'"
        by (simp add: check_transaction_date_order_def)
      with assms(1,2) show ?thesis by (rule add_action_body) (simp add: section_no_simps)
    next
      case False
      with \<open>''SCAN_DATE'' \<in> set (labels df) \<and> ''PURCHASE_DATE'' \<in> set (labels df)\<close> Inr assms(3)
      have "ctx_add ''body''
                   ''\<newline>    9. Date Order Check (check if receipt scan date is after purchase date):\<newline>       - All 'scan_date' entries are after 'purchase_date'.\<newline>    ''
                   ctx = Inr ctx'"
        by (simp add: check_transaction_date_order_def)
      with assms(1,2) show ?thesis by (rule add_body) (simp add: section_no_simps)
    qed
  qed
qed

lemma customer_date_order_grows:
  assumes "ctx ''body'' = Some b" "ctx ''action_items'' = Some a"
    and "check_customer_date_order E df ctx = Inr ctx'"
  shows "grows (Some 10) ctx ctx'"
proof (cases "''BIRTH_DATE'' \<in> set (labels df) \<and> ''CREATED_DATE'' \<in> set (labels df)")
  case False
  with assms(3) have "ctx_add ''body''
          ''\<newline>    10. Date Order Check (check if customers account created date is after birth date):\<newline>       - No related columns found.\<newline>    ''
          ctx = Inr ctx'"
    by (simp add: check_customer_date_order_def)
  with assms(1,2) show ?thesis by (rule add_body) (simp add: section_no_simps)
next
  case True
  show ?thesis
  proof (cases "invalid_date_rows df ''CREATED_DATE'' ''BIRTH_DATE''")
    case (Inl e)
    with True assms(3) show ?thesis by (simp add: check_customer_date_order_def)
  next
    case (Inr n)
    show ?thesis
    proof (cases "n \<noteq> 0")
      case True
      with \<open>''BIRTH_DATE'' \<in> set (labels df) \<and> ''CREATED_DATE'' \<in> set (labels df)\<close> Inr assms(3)
      have "then_do
                   (ctx_add ''action_items''
                      (''    - Correct date order: 'created_date' should be after 'birth_date'. Found invalid entries in ''
                       @ str_nat n @ '' rows.\<newline>'') ctx)
                   (ctx_add ''body''
                      (''\<newline>    10. Date Order Check (check if customers account created date is after birth date):\<newline>       - There are ''
                       @ str_nat n @ '' rows where 'created_date' is before 'birth_date'.\<newline>    ''))
              = Inr ctx'"
        by (simp add: check_customer_date_order_def)
      with assms(1,2) show ?thesis by (rule add_action_body) (simp add: section_no_simps)
    next
      case False
      with \<open>''BIRTH_DATE'' \<in> set (labels df) \<and> ''CREATED_DATE'' \<in> set (labels df)\<close> Inr assms(3)
      have "ctx_add ''body''
                   ''\<newline>    10. Date Order Check (check if customers account created date is after birth date):\<newline>       - All 'created_date' entries are after 'birth_date'.\<newline>    ''
                   ctx = Inr ctx'"
        by (simp add: check_customer_date_order_def)
      with assms(1,2) show ?thesis by (rule add_body) (simp add: section_no_simps)
    qed
  qed
qed

lemma report_invalid_extends:
  assumes "ctx ''body'' = Some b" "ctx ''action_items'' = Some a"
    and "report_invalid bp ap as invalid ctx = Inr ctx'"
  shows "\<exists>fb fa. ctx' ''body'' = Some (b @ fb) \<and> ctx' ''action_items'' = Some (a @ fa)"
proof (cases "length invalid > 0")
  case True
  with assms have "ctx' = ctx(''body'' \<mapsto> b @ bp @ join '', '' invalid @ ''\<newline>'',
                       ''action_items'' \<mapsto> a @ ap @ join '', '' invalid @ as)"
    by (simp add: report_invalid_def ctx_add_def)
  then show ?thesis by simp
next
  case False
  with assms have "ctx' = ctx" by (simp add: report_invalid_def)
  with assms(1,2) show ?thesis by simp
qed

lemma data_consistency_grows:
  assumes "ctx ''body'' = Some b" "ctx ''action_items'' = Some a"
    and "check_data_consistency E df ctx = Inr ctx'"
  shows "grows (Some 11) ctx ctx'"
proof (cases "''STATE'' \<in> set (labels df) \<and> ''LANGUAGE'' \<in> set (labels df) \<and> ''GENDER'' \<in> set (labels df)")
  case False
  with assms(3) have "ctx_add ''body''
          ''\<newline>    11. Data Consistency Check (check if STATE, LANGUAGE, and GENDER are consistent):\<newline>       - No related columns found.\<newline>    ''
          ctx = Inr ctx'"
    by (simp add: check_data_consistency_def)
  with assms(1,2) show ?thesis by (rule add_body) (simp add: section_no_simps)
next
  case True
  let ?h = "''\<newline>    11. Data Consistency Check (check if STATE, LANGUAGE, and GENDER are consistent):\<newline>    ''"
  let ?ctx1 = "ctx(''body'' \<mapsto> b @ ?h)"
  have h: "ctx_add ''body'' ?h ctx = Inr ?ctx1" using assms(1) by (simp add: ctx_add_def)
  from True assms(3) obtain invs invl invg where
    r: "then_do (ctx_add ''body'' ?h ctx) (\<lambda>ctx1.
        then_do
          (report_invalid ''     - Invalid states detected: ''
             ''    - Resolve invalid states: Correct the following invalid states: '' ''.\<newline>''
             invs ctx1) (\<lambda>ctx2.
        then_do
          (report_invalid ''         - Invalid languages detected: ''
             ''    - Resolve invalid languages: Correct the following invalid languages: '' ''.\<newline>''
             invl ctx2)
          (report_invalid ''         - Invalid gender values detected: ''
             ''    - Resolve invalid gender values: Address the following invalid gender values: ''
             ''.\<newline>'' invg))) = Inr ctx'"
    by (cases "invalid_values E df ''STATE'' valid_states";
        cases "invalid_values E df ''LANGUAGE'' valid_languages";
        cases "invalid_values E df ''GENDER'' valid_genders")
      (simp_all add: check_data_consistency_def)
  from r h obtain ctx2 where
    2: "report_invalid ''     - Invalid states detected: ''
             ''    - Resolve invalid states: Correct the following invalid states: '' ''.\<newline>''
             invs ?ctx1 = Inr ctx2"
    by (cases "report_invalid ''     - Invalid states detected: ''
             ''    - Resolve invalid states: Correct the following invalid states: '' ''.\<newline>''
             invs ?ctx1") simp_all
  from r h 2 obtain ctx3 where
    3: "report_invalid ''         - Invalid languages detected: ''
             ''    - Resolve invalid languages: Correct the following invalid languages: '' ''.\<newline>''
             invl ctx2 = Inr ctx3"
    by (cases "report_invalid ''         - Invalid languages detected: ''
             ''    - Resolve invalid languages: Correct the following invalid languages: '' ''.\<newline>''
             invl ctx2") simp_all
  from r h 2 3 have
    4: "report_invalid ''         - Invalid gender values detected: ''
             ''    - Resolve invalid gender values: Address the following invalid gender values: ''
             ''.\<newline>'' invg ctx3 = Inr ctx'"
    by simp
  have b1: "?ctx1 ''body'' = Some (b @ ?h)" by simp
  have a1: "?ctx1 ''action_items'' = Some a" using assms(2) by simp
  from report_invalid_extends [OF b1 a1 2] obtain f2 g2 where
    b2: "ctx2 ''body'' = Some ((b @ ?h) @ f2)" and a2: "ctx2 ''action_items'' = Some (a @ g2)"
    by blast
  from report_invalid_extends [OF b2 a2 3] obtain f3 g3 where
    b3: "ctx3 ''body'' = Some (((b @ ?h) @ f2) @ f3)" and a3: "ctx3 ''action_items'' = Some ((a @ g2) @ g3)"
    by blast
  from report_invalid_extends [OF b3 a3 4] obtain f4 g4 where
    b4: "ctx' ''body'' = Some ((((b @ ?h) @ f2) @ f3) @ f4)"
    and a4: "ctx' ''action_items'' = Some (((a @ g2) @ g3) @ g4)"
    by blast
  show ?thesis unfolding grows_def
    by (intro exI [of _ b] exI [of _ a] exI [of _ "?h @ f2 @ f3 @ f4"] exI [of _ "g2 @ g3 @ g4"])
      (simp add: assms(1,2) b4 a4 section_no_simps)
qed

lemma describe_data_grows:
  assumes "ctx ''body'' = Some b" "ctx ''action_items'' = Some a"
    and "describe_data E df ctx = Inr ctx'"
  shows "grows (Some 12) ctx ctx'"
proof (cases "numeric_empty E df")
  case True
  with assms(3) have "ctx_add ''body''
          ''\<newline>    12. Summary Statistics:\<newline>       - No numeric columns found.\<newline>        '' ctx
        = Inr ctx'"
    by (simp add: describe_data_def)
  with assms(1,2) show ?thesis by (rule add_body) (simp add: section_no_simps)
next
  case False
  with assms(3) have "ctx_add ''body''
          (''\<newline>    12. Summary Statistics:\<newline>       '' @ describe_to_string E df @ ''\<newline>    '') ctx
        = Inr ctx'"
    by (simp add: describe_data_def)
  with assms(1,2) show ?thesis by (rule add_body) (simp add: section_no_simps)
qed

lemma appends_reading:
  assumes "\<And>E df ctx b a ctx'. ctx ''body'' = Some b \<Longrightarrow> ctx ''action_items'' = Some a
             \<Longrightarrow> check E df ctx = Inr ctx' \<Longrightarrow> grows k ctx ctx'"
  shows "appends k (reading check)"
  unfolding appends_def reading_def using assms by auto

lemma appends_check_date_validity: "appends (Some 8) check_date_validity"
  unfolding appends_def using date_validity_grows by auto

lemma appends_steps:
  "list_all2 appends
     [Some 1, Some 2, None, Some 3, Some 4, Some 5, Some 6, Some 7, Some 8, Some 9, Some 10,
      Some 11, Some 12]
     TABLE_CHECK_STEPS"
  unfolding TABLE_CHECK_STEPS_def
  by (intro list_all2_Cons [THEN iffD2] conjI appends_check_date_validity appends_reading
      shape_grows column_spaces_grows duplicate_columns_grows data_types_grows primary_key_grows
      null_columns_grows duplicate_rows_grows mixed_types_grows transaction_date_order_grows
      customer_date_order_grows data_consistency_grows describe_data_grows)
    simp_all

lemma run_steps_grows:
  assumes "list_all2 appends ks ss"
    and "ctx ''body'' = Some b" "ctx ''action_items'' = Some a"
    and "run_steps E ss df ctx = (df', Inr ctx')"
  shows "map section_no (fragments b (map body_of (run_trace E ss df ctx))) = ks
         \<and> ctx' ''body'' = Some (b @ concat (fragments b (map body_of (run_trace E ss df ctx))))
         \<and> (\<exists>fa. ctx' ''action_items'' = Some (a @ fa))"
  using assms
proof (induction ks ss arbitrary: ctx b a df rule: list_all2_induct)
  case Nil
  then show ?case by simp
next
  case (Cons k ks s ss)
  obtain df1 r where s: "s E df ctx = (df1, r)" by (cases "s E df ctx")
  with Cons.prems(3) obtain ctx1 where r: "r = Inr ctx1" by (cases r) simp_all
  with s Cons.prems(3) have rest: "run_steps E ss df1 ctx1 = (df', Inr ctx')" by simp
  from Cons.hyps(1) Cons.prems(1,2) s r have "grows k ctx ctx1"
    unfolding appends_def by blast
  with Cons.prems(1,2) obtain fb fa where
    b1: "ctx1 ''body'' = Some (b @ fb)" and a1: "ctx1 ''action_items'' = Some (a @ fa)"
    and k: "section_no fb = k"
    unfolding grows_def by auto
  from Cons.IH [OF b1 a1 rest] obtain fa' where
    m: "map section_no (fragments (b @ fb) (map body_of (run_trace E ss df1 ctx1))) = ks"
    and b': "ctx' ''body'' =
        Some ((b @ fb) @ concat (fragments (b @ fb) (map body_of (run_trace E ss df1 ctx1))))"
    and a': "ctx' ''action_items'' = Some ((a @ fa) @ fa')"
    by blast
  have t: "run_trace E (s # ss) df ctx = ctx1 # run_trace E ss df1 ctx1"
    using s r by simp
  have f: "fragments b (map body_of (run_trace E (s # ss) df ctx))
             = fb # fragments (b @ fb) (map body_of (run_trace E ss df1 ctx1))"
    unfolding t using b1 by (simp add: body_of_def)
  show ?case unfolding f using m b' a' k by simp
qed

lemma initial_context_entries:
  "initial_context df ''body'' =
     Some (''Here is the result of the initial data check for of table '' @ [CHR 0x27]
           @ name df @ [CHR 0x27] @ '':\<newline>'')"
  "initial_context df ''action_items'' = Some ''Action required:\<newline>''"
  by (simp_all add: initial_context_def)

lemma numbered_count:
  assumes "map section_no frs = ks"
  shows "length (filter (\<lambda>f. section_no f \<noteq> None) frs) = length (filter (\<lambda>k. k \<noteq> None) ks)"
proof -
  have "filter (\<lambda>k. k \<noteq> None) (map section_no frs) = map section_no (filter (\<lambda>f. section_no f \<noteq> None) frs)"
    by (simp add: filter_map comp_def)
  with assms show ?thesis by (metis length_map)
qed

lemma run_report_structure:
  assumes "print_summary E df = (df', Inr report)"
  shows "(\<exists>actions. report =
            ''\<newline>    ''
            @ (''Here is the result of the initial data check for of table '' @ [CHR 0x27]
               @ name df @ [CHR 0x27] @ '':\<newline>'' @ concat (body_fragments E df))
            @ ''\<newline>    \<newline>\<newline>    ''
            @ (''Action required:\<newline>'' @ actions)
            @ ''\<newline>    '')
         \<and> map section_no (body_fragments E df) =
             [Some 1, Some 2, None, Some 3, Some 4, Some 5, Some 6, Some 7, Some 8, Some 9,
              Some 10, Some 11, Some 12]
         \<and> length (body_fragments E df) = 13
         \<and> numbered_findings E df = 12"
proof -
  obtain df1 r where run: "run_steps E TABLE_CHECK_STEPS df (initial_context df) = (df1, r)"
    by (cases "run_steps E TABLE_CHECK_STEPS df (initial_context df)")
  with assms obtain ctx where r: "r = Inr ctx" and rep: "render ctx = Inr report"
    by (cases r) (simp_all add: print_summary_def)
  let ?b = "''Here is the result of the initial data check for of table '' @ [CHR 0x27]
           @ name df @ [CHR 0x27] @ '':\<newline>''"
  have bf: "body_fragments E df =
              fragments ?b (map body_of (run_trace E TABLE_CHECK_STEPS df (initial_context df)))"
    by (simp add: body_fragments_def body_of_def initial_context_entries)
  from run r have "run_steps E TABLE_CHECK_STEPS df (initial_context df) = (df1, Inr ctx)" by simp
  note g = run_steps_grows [OF appends_steps initial_context_entries this, folded bf]
  have m: "map section_no (body_fragments E df) =
             [Some 1, Some 2, None, Some 3, Some 4, Some 5, Some 6, Some 7, Some 8, Some 9,
              Some 10, Some 11, Some 12]"
    using g by (rule conjunct1)
  have b: "ctx ''body'' = Some (?b @ concat (body_fragments E df))"
    using g by (rule conjunct2 [THEN conjunct1])
  have "\<exists>fa. ctx ''action_items'' = Some (''Action required:\<newline>'' @ fa)"
    using g by (rule conjunct2 [THEN conjunct2])
  then obtain fa where a: "ctx ''action_items'' = Some (''Action required:\<newline>'' @ fa)" ..
  from rep b a have "report =
            ''\<newline>    ''
            @ (''Here is the result of the initial data check for of table '' @ [CHR 0x27]
               @ name df @ [CHR 0x27] @ '':\<newline>'' @ concat (body_fragments E df))
            @ ''\<newline>    \<newline>\<newline>    ''
            @ (''Action required:\<newline>'' @ fa)
            @ ''\<newline>    ''"
    by (simp add: render_def ctx_get_def)
  then have 1: "\<exists>actions. report =
            ''\<newline>    ''
            @ (''Here is the result of the initial data check for of table '' @ [CHR 0x27]
               @ name df @ [CHR 0x27] @ '':\<newline>'' @ concat (body_fragments E df))
            @ ''\<newline>    \<newline>\<newline>    ''
            @ (''Action required:\<newline>'' @ actions)
            @ ''\<newline>    ''"
    by (rule exI [of _ fa])
  from m have "length (map section_no (body_fragments E df)) = 13" by simp
  then have 2: "length (body_fragments E df) = 13" by simp
  from numbered_count [OF m] have 3: "numbered_findings E df = 12"
    by (simp add: numbered_findings_def)
  show ?thesis by (rule conjI [OF 1 conjI [OF m conjI [OF 2 3]]])
qed

text \<open>
  C3, as the code has it. The report returned is the body followed by the action items,
  each behind its fixed separator. The body is its heading followed by one fragment per
  check, thirteen in all, of which twelve are numbered, 1 to 12 in order: the fragment of
  the duplicate-columns check carries no number and continues section 2.
\<close>

theorem report_structure:
  assumes "print_summary E df = (df', Inr report)"
  shows "(\<exists>actions. report =
            ''\<newline>    ''
            @ (''Here is the result of the initial data check for of table '' @ [CHR 0x27]
               @ name df @ [CHR 0x27] @ '':\<newline>'' @ concat (body_fragments E df))
            @ ''\<newline>    \<newline>\<newline>    ''
            @ (''Action required:\<newline>'' @ actions)
            @ ''\<newline>    '')
         \<and> map section_no (body_fragments E df) =
             [Some 1, Some 2, None, Some 3, Some 4, Some 5, Some 6, Some 7, Some 8, Some 9,
              Some 10, Some 11, Some 12]
         \<and> length (body_fragments E df) = 13
         \<and> numbered_findings E df = 12"
  using assms by (rule run_report_structure)

text \<open>The run on the users table returns a report, with these section numbers.\<close>

theorem report_structure_witness:
  "map section_no (body_fragments plain_env users_table) =
     [Some 1, Some 2, None, Some 3, Some 4, Some 5, Some 6, Some 7, Some 8, Some 9,
      Some 10, Some 11, Some 12]
   \<and> numbered_findings plain_env users_table = 12"
proof -
  obtain df' r where p: "print_summary plain_env users_table = (df', r)"
    by (cases "print_summary plain_env users_table")
  with users_run_returns obtain report where "r = Inr report" by (cases r) simp_all
  with p have "print_summary plain_env users_table = (df', Inr report)" by simp
  from report_structure [OF this] show ?thesis by simp
qed

text \<open>
  C3 as stated fails on the users table: the run returns, the body has thirteen fragments
  and twelve numbered findings, not thirteen.
\<close>

theorem report_structure_counterexample:
  "\<not> isl (snd (print_summary plain_env users_table))
   \<and> length (body_fragments plain_env users_table) = 13
   \<and> numbered_findings plain_env users_table = 12"
proof -
  obtain df' r where p: "print_summary plain_env users_table = (df', r)"
    by (cases "print_summary plain_env users_table")
  with users_run_returns obtain report where "r = Inr report" by (cases r) simp_all
  with p have "print_summary plain_env users_table = (df', Inr report)" by simp
  from run_report_structure [OF this] users_run_returns show ?thesis by simp
qed

end
